theory Spec2Isabelle
  imports Main "HOL-Library.Signed_Division"
begin

section \<open>Strings, digits and number formatting\<close>

text \<open>
  Strings of the program are \<^typ>\<open>string\<close>, one \<^typ>\<open>char\<close> per code unit. Every
  character the program inspects (digits, colon, dot, underscore, hyphen, slash, line
  feed) is ASCII, so the code-unit positions of \<^verbatim>\<open>length\<close> and \<^verbatim>\<open>slice\<close> are list
  positions. Numbers are \<^typ>\<open>int\<close>: every number the program computes is an integer
  far below the range where a double stops being exact.
\<close>

abbreviation nl :: char where
  "nl \<equiv> CHR 0x0A"

text \<open>The regular-expression class \<^verbatim>\<open>\d\<close>: an ASCII decimal digit, with its value.\<close>

definition digit_val :: "char \<Rightarrow> int option" where
  "digit_val c = map_of (zip ''0123456789'' [0, 1, 2, 3, 4, 5, 6, 7, 8, 9]) c"

definition is_digit :: "char \<Rightarrow> bool" where
  "is_digit c = (digit_val c \<noteq> None)"

definition all_digits :: "string \<Rightarrow> bool" where
  "all_digits s = list_all is_digit s"

text \<open>
  \<^verbatim>\<open>parseInt(s, 10)\<close> on the strings the program gives it, which a regular expression
  has already checked to be non-empty runs of digits: the value of the leading digits.
\<close>

definition parseInt :: "string \<Rightarrow> int" where
  "parseInt s = foldl (\<lambda>acc c. 10 * acc + the (digit_val c)) 0 (takeWhile is_digit s)"

definition digit_char :: "nat \<Rightarrow> char" where
  "digit_char n = ''0123456789'' ! n"

text \<open>\<^verbatim>\<open>String(n)\<close> for an integer: decimal digits, a minus sign for a negative number.\<close>

fun digits_of_nat :: "nat \<Rightarrow> string" where
  "digits_of_nat n =
     (if n < 10 then [digit_char n] else digits_of_nat (n div 10) @ [digit_char (n mod 10)])"

declare digits_of_nat.simps [simp del]

definition String :: "int \<Rightarrow> string" where
  "String i = (if i < 0 then CHR ''-'' # digits_of_nat (nat (- i)) else digits_of_nat (nat i))"

text \<open>\<^verbatim>\<open>s.padStart(2, '0')\<close>.\<close>

definition padStart2 :: "string \<Rightarrow> string" where
  "padStart2 s = replicate (2 - length s) (CHR ''0'') @ s"

text \<open>\<^verbatim>\<open>s.split(c)\<close> for a one-character separator: never the empty list.\<close>

fun split :: "char \<Rightarrow> string \<Rightarrow> string list" where
  "split sep [] = [[]]"
| "split sep (c # cs) =
     (if c = sep then [] # split sep cs
      else (case split sep cs of l # ls \<Rightarrow> (c # l) # ls | [] \<Rightarrow> [[c]]))"

text \<open>\<^verbatim>\<open>lines.join('\n')\<close>.\<close>

fun join :: "char \<Rightarrow> string list \<Rightarrow> string" where
  "join sep [] = []"
| "join sep [l] = l"
| "join sep (l # ls) = l @ sep # join sep ls"

definition endsWith :: "string \<Rightarrow> char \<Rightarrow> bool" where
  "endsWith s c = (s \<noteq> [] \<and> last s = c)"

section \<open>Time and date values (transcript.ts)\<close>

record Time =
  hours :: int
  minutes :: int
  seconds :: int

record DateOnly =
  year :: int
  month :: int
  day :: int

text \<open>
  \<^verbatim>\<open>DateTime\<close> has the six fields of the two records above; its fields carry the
  prefix \<open>dt_\<close> here because a field name belongs to one record type.
\<close>

record DateTime =
  dt_year :: int
  dt_month :: int
  dt_day :: int
  dt_hours :: int
  dt_minutes :: int
  dt_seconds :: int

record TranscriptUpdate =
  body :: string
  firstTimestamp :: DateTime
  lastTimestamp :: DateTime
  hasOutOfOrderTimestamps :: bool

datatype transcript_error = NoTimestamps

text \<open>
  \<^verbatim>\<open>TIME_REGEX = /^(\d{2}):(\d{2}):(\d{2})$/\<close> (constants.ts): the three captured
  groups, or no match.
\<close>

definition TIME_REGEX_exec :: "string \<Rightarrow> (string \<times> string \<times> string) option" where
  "TIME_REGEX_exec s =
     (if length s = 8 \<and> all_digits (take 2 s) \<and> s ! 2 = CHR '':''
         \<and> all_digits (take 2 (drop 3 s)) \<and> s ! 5 = CHR '':''
         \<and> all_digits (take 2 (drop 6 s))
      then Some (take 2 s, take 2 (drop 3 s), take 2 (drop 6 s)) else None)"

definition parseTime :: "string \<Rightarrow> Time option" where
  "parseTime v =
     (case TIME_REGEX_exec v of
        None \<Rightarrow> None
      | Some (g1, g2, g3) \<Rightarrow>
          (let hours = parseInt g1; minutes = parseInt g2; seconds = parseInt g3
           in if hours > 23 \<or> minutes > 59 \<or> seconds > 59 then None
              else Some \<lparr>hours = hours, minutes = minutes, seconds = seconds\<rparr>))"

text \<open>
  \<^verbatim>\<open>formatTime\<close> reads the three time fields of its argument; the program also calls
  it on a \<^verbatim>\<open>DateTime\<close>, for which \<open>time_of\<close> selects those fields.
\<close>

definition formatTime :: "Time \<Rightarrow> string" where
  "formatTime t =
     padStart2 (String (hours t)) @ CHR '':'' # padStart2 (String (minutes t))
       @ CHR '':'' # padStart2 (String (seconds t))"

definition time_of :: "DateTime \<Rightarrow> Time" where
  "time_of dt = \<lparr>hours = dt_hours dt, minutes = dt_minutes dt, seconds = dt_seconds dt\<rparr>"

definition formatDateDashed :: "DateOnly \<Rightarrow> string" where
  "formatDateDashed d =
     String (year d) @ CHR ''-'' # padStart2 (String (month d))
       @ CHR ''-'' # padStart2 (String (day d))"

definition timeToSeconds :: "Time \<Rightarrow> int" where
  "timeToSeconds t = hours t * 3600 + minutes t * 60 + seconds t"

text \<open>
  \<^verbatim>\<open>Math.floor(a / b)\<close> is \<open>div\<close> on \<^typ>\<open>int\<close>; the remainder operator \<^verbatim>\<open>%\<close> of
  JavaScript takes the sign of the dividend, which is \<open>smod\<close>.
\<close>

definition secondsToTimeWithOverflow :: "int \<Rightarrow> Time \<times> int" where
  "secondsToTimeWithOverflow totalSeconds =
     (let daysOverflow = totalSeconds div 86400;
          remainingSeconds = totalSeconds smod 86400;
          hours = remainingSeconds div 3600;
          minutes = (remainingSeconds smod 3600) div 60;
          seconds = remainingSeconds smod 60
      in (\<lparr>hours = hours, minutes = minutes, seconds = seconds\<rparr>, daysOverflow))"

subsection \<open>The calendar of the Date object\<close>

text \<open>
  \<^verbatim>\<open>addDays\<close> goes through the platform's \<^verbatim>\<open>Date\<close>: \<^verbatim>\<open>new Date(y, m - 1, d)\<close>,
  \<^verbatim>\<open>setDate(getDate() + days)\<close>, and the three getters. A \<^verbatim>\<open>Date\<close> built from
  calendar fields at local midnight and read back with the local getters is a day number
  in the proleptic Gregorian calendar: \<open>days_from_civil\<close> and \<open>civil_from_days\<close>
  convert between the two (day 0 is 1970-01-01). The constructor normalises a month
  index outside 0..11 into the year, adds the day of the month as an offset, and reads a
  year from 0 to 99 as 1900 + year. The limit of the \<^verbatim>\<open>Date\<close> range (100 million days
  either side of 1970) is not modelled.
\<close>

definition days_from_civil :: "int \<Rightarrow> int \<Rightarrow> int \<Rightarrow> int" where
  "days_from_civil y m d =
     (let y' = (if m \<le> 2 then y - 1 else y);
          era = y' div 400;
          yoe = y' - era * 400;
          doy = (153 * (if m > 2 then m - 3 else m + 9) + 2) div 5 + d - 1;
          doe = yoe * 365 + yoe div 4 - yoe div 100 + doy
      in era * 146097 + doe - 719468)"

definition civil_from_days :: "int \<Rightarrow> DateOnly" where
  "civil_from_days z =
     (let z' = z + 719468;
          era = z' div 146097;
          doe = z' - era * 146097;
          yoe = (doe - doe div 1460 + doe div 36524 - doe div 146096) div 365;
          y = yoe + era * 400;
          doy = doe - (365 * yoe + yoe div 4 - yoe div 100);
          mp = (5 * doy + 2) div 153;
          d = doy - (153 * mp + 2) div 5 + 1;
          m = (if mp < 10 then mp + 3 else mp - 9)
      in \<lparr>year = (if m \<le> 2 then y + 1 else y), month = m, day = d\<rparr>)"

definition Date_day_number :: "int \<Rightarrow> int \<Rightarrow> int \<Rightarrow> int" where
  "Date_day_number y monthIndex d =
     (let fullYear = (if 0 \<le> y \<and> y \<le> 99 then 1900 + y else y)
      in days_from_civil (fullYear + monthIndex div 12) (monthIndex mod 12 + 1) 1 + d - 1)"

definition addDays :: "DateOnly \<Rightarrow> int \<Rightarrow> DateOnly" where
  "addDays date days = civil_from_days (Date_day_number (year date) (month date - 1) (day date) + days)"

definition createDateTime :: "DateOnly \<Rightarrow> Time \<Rightarrow> DateTime" where
  "createDateTime date time =
     \<lparr>dt_year = year date, dt_month = month date, dt_day = day date,
      dt_hours = hours time, dt_minutes = minutes time, dt_seconds = seconds time\<rparr>"

definition compareDateTime :: "DateTime \<Rightarrow> DateTime \<Rightarrow> int" where
  "compareDateTime a b =
     (if dt_year a \<noteq> dt_year b then dt_year a - dt_year b
      else if dt_month a \<noteq> dt_month b then dt_month a - dt_month b
      else if dt_day a \<noteq> dt_day b then dt_day a - dt_day b
      else if dt_hours a \<noteq> dt_hours b then dt_hours a - dt_hours b
      else if dt_minutes a \<noteq> dt_minutes b then dt_minutes a - dt_minutes b
      else dt_seconds a - dt_seconds b)"

definition parseTimestampLine :: "string \<Rightarrow> (Time \<times> string) option" where
  "parseTimestampLine line =
     (if length line < 8 then None
      else (case parseTime (take 8 line) of
              None \<Rightarrow> None
            | Some time \<Rightarrow> Some (time, drop 8 line)))"

definition applyOffset :: "Time \<Rightarrow> DateOnly \<Rightarrow> Time \<Rightarrow> DateTime" where
  "applyOffset start effectiveDate relative =
     (let baseSeconds = timeToSeconds start;
          relativeSeconds = timeToSeconds relative;
          totalSeconds = baseSeconds + relativeSeconds;
          (adjustedTime, daysOverflow) = secondsToTimeWithOverflow totalSeconds;
          adjustedDate = (if daysOverflow > 0 then addDays effectiveDate daysOverflow
                          else effectiveDate)
      in createDateTime adjustedDate adjustedTime)"

subsection \<open>adjustTranscript\<close>

text \<open>The variables the loop of \<^verbatim>\<open>adjustTranscript\<close> updates, as a state record.\<close>

record adjust_state =
  adjustedLines :: "string list"
  st_firstTimestamp :: "DateTime option"
  st_lastTimestamp :: "DateTime option"
  previousTimestamp :: "DateTime option"
  hasOutOfOrder :: bool

definition adjust_init :: adjust_state where
  "adjust_init =
     \<lparr>adjustedLines = [], st_firstTimestamp = None, st_lastTimestamp = None,
      previousTimestamp = None, hasOutOfOrder = False\<rparr>"

text \<open>One iteration of the loop over the lines.\<close>

definition adjust_line :: "Time \<Rightarrow> DateOnly \<Rightarrow> adjust_state \<Rightarrow> string \<Rightarrow> adjust_state" where
  "adjust_line baseTime effectiveDate st line =
     (case parseTimestampLine line of
        Some (time, rest) \<Rightarrow>
          (let adjusted = applyOffset baseTime effectiveDate time
           in \<lparr>adjustedLines = adjustedLines st @ [formatTime (time_of adjusted) @ rest],
               st_firstTimestamp =
                 (if st_firstTimestamp st = None then Some adjusted else st_firstTimestamp st),
               st_lastTimestamp = Some adjusted,
               previousTimestamp = Some adjusted,
               hasOutOfOrder =
                 (case previousTimestamp st of
                    Some prev \<Rightarrow>
                      (if compareDateTime adjusted prev < 0 then True else hasOutOfOrder st)
                  | None \<Rightarrow> hasOutOfOrder st)\<rparr>)
      | None \<Rightarrow> st\<lparr>adjustedLines := adjustedLines st @ [line]\<rparr>)"

definition transcript_lines :: "string \<Rightarrow> string list" where
  "transcript_lines contents =
     (let lines = split nl contents
      in if endsWith contents nl \<and> last lines = [] then butlast lines else lines)"

definition adjustTranscript ::
    "string \<Rightarrow> Time \<Rightarrow> DateOnly \<Rightarrow> transcript_error + TranscriptUpdate" where
  "adjustTranscript contents baseTime effectiveDate =
     (let hasTrailingNewline = endsWith contents nl;
          st = foldl (adjust_line baseTime effectiveDate) adjust_init (transcript_lines contents)
      in case st_firstTimestamp st of
           None \<Rightarrow> Inl NoTimestamps
         | Some first \<Rightarrow>
             Inr \<lparr>body = join nl (adjustedLines st) @ (if hasTrailingNewline then [nl] else []),
                  firstTimestamp = first,
                  lastTimestamp = (case st_lastTimestamp st of Some l \<Rightarrow> l | None \<Rightarrow> first),
                  hasOutOfOrderTimestamps = hasOutOfOrder st\<rparr>)"

section \<open>Paths (the posix variant of the platform's path module)\<close>

text \<open>
  \<^verbatim>\<open>path.dirname\<close>, \<^verbatim>\<open>path.basename\<close> and \<^verbatim>\<open>path.join\<close> belong to the platform. They
  are modelled after the posix implementation, on the segments between slashes.
\<close>

abbreviation slash :: char where
  "slash \<equiv> CHR ''/''"

definition strip_trailing_slashes :: "string \<Rightarrow> string" where
  "strip_trailing_slashes p = rev (dropWhile (\<lambda>c. c = slash) (rev p))"

text \<open>
  \<^verbatim>\<open>path.dirname\<close>: trailing slashes are ignored, the result is the text before the
  last remaining slash; a slash at position 0 is the root.
\<close>

definition dirname :: "string \<Rightarrow> string" where
  "dirname p =
     (if p = [] then ''.''
      else
        (let hasRoot = (hd p = slash);
             t = strip_trailing_slashes p;
             k = length (takeWhile (\<lambda>c. c \<noteq> slash) (rev t))
         in if length t \<le> k + 1 then (if hasRoot then ''/'' else ''.'')
            else if hasRoot \<and> length t - k - 1 = 1 then ''//''
            else take (length t - k - 1) p))"

definition basename :: "string \<Rightarrow> string" where
  "basename p = rev (takeWhile (\<lambda>c. c \<noteq> slash) (dropWhile (\<lambda>c. c = slash) (rev p)))"

text \<open>
  \<^verbatim>\<open>path.normalize\<close>: empty and \<^verbatim>\<open>.\<close> segments disappear, \<^verbatim>\<open>..\<close> removes the segment
  before it (or stays, in a relative path with nothing left to remove). The stack of
  segments is kept in reverse.
\<close>

definition normalize_step :: "bool \<Rightarrow> string list \<Rightarrow> string \<Rightarrow> string list" where
  "normalize_step allowAboveRoot stack seg =
     (if seg = [] \<or> seg = ''.'' then stack
      else if seg = ''..'' then
        (case stack of
           lastSeg # rest \<Rightarrow>
             if lastSeg \<noteq> ''..'' then rest
             else if allowAboveRoot then ''..'' # stack else stack
         | [] \<Rightarrow> if allowAboveRoot then [''..''] else [])
      else seg # stack)"

definition normalizeString :: "string \<Rightarrow> bool \<Rightarrow> string" where
  "normalizeString p allowAboveRoot =
     join slash (rev (foldl (normalize_step allowAboveRoot) [] (split slash p)))"

definition normalize :: "string \<Rightarrow> string" where
  "normalize p =
     (if p = [] then ''.''
      else
        (let isAbsolute = (hd p = slash);
             trailingSeparator = (last p = slash);
             q = normalizeString p (\<not> isAbsolute)
         in if q = [] then (if isAbsolute then ''/'' else if trailingSeparator then ''./'' else ''.'')
            else (if isAbsolute then [slash] else []) @ q
                   @ (if trailingSeparator then [slash] else [])))"

text \<open>\<^verbatim>\<open>path.join(a, b)\<close>: the non-empty arguments joined by a slash, then normalised.\<close>

definition path_join :: "string \<Rightarrow> string \<Rightarrow> string" where
  "path_join a b =
     (if a = [] \<and> b = [] then ''.''
      else if a = [] then normalize b
      else if b = [] then normalize a
      else normalize (a @ slash # b))"

section \<open>Sort keys of transcript files (merge.ts)\<close>

datatype merge_error =
    InvalidGlobPattern string
  | NoMatches string
  | UnrecognizedFilename string
  | MixedDates
  | UndeterminedDate
  | FileTooLarge string int int
  | IOError

record MergeRequest =
  patterns :: "string list"
  "output" :: "string option"
  noDelete :: bool

record MergeOutcome =
  files :: "string list"
  outputPath :: string

record FileSortKey =
  date :: "DateOnly option"
  startHours :: int
  startMinutes :: int
  startSeconds :: int

definition compareSortKeys :: "FileSortKey \<Rightarrow> FileSortKey \<Rightarrow> int" where
  "compareSortKeys a b =
     (let byStart =
            (if startHours a \<noteq> startHours b then startHours a - startHours b
             else if startMinutes a \<noteq> startMinutes b then startMinutes a - startMinutes b
             else startSeconds a - startSeconds b)
      in case (date a, date b) of
           (Some da, Some db) \<Rightarrow>
             (if year da \<noteq> year db then year da - year db
              else if month da \<noteq> month db then month da - month db
              else if day da \<noteq> day db then day da - day db
              else byStart)
         | (Some da, None) \<Rightarrow> 1
         | (None, Some db) \<Rightarrow> - 1
         | (None, None) \<Rightarrow> byStart)"

text \<open>The test \<^verbatim>\<open>s.length === n && /^\d{n}$/.test(s)\<close>.\<close>

definition digits_exactly :: "nat \<Rightarrow> string \<Rightarrow> bool" where
  "digits_exactly n s = (length s = n \<and> all_digits s)"

definition looksLikeFlatFormat :: "string \<Rightarrow> bool" where
  "looksLikeFlatFormat filename =
     (let parts = split (CHR ''_'') filename
      in if length parts \<noteq> 3 then False
         else if \<not> digits_exactly 8 (parts ! 0) then False
         else if \<not> digits_exactly 6 (parts ! 1) then False
         else if \<not> digits_exactly 6 (parts ! 2) then False
         else True)"

definition looksLikeNestedFormat :: "string \<Rightarrow> bool" where
  "looksLikeNestedFormat filename =
     (let parts = split (CHR ''-'') filename
      in if length parts \<noteq> 2 then False
         else if \<not> digits_exactly 6 (parts ! 0) then False
         else if \<not> digits_exactly 6 (parts ! 1) then False
         else True)"

definition parseTimeDigits :: "string \<Rightarrow> Time option" where
  "parseTimeDigits v =
     (if \<not> digits_exactly 6 v then None
      else
        (let hours = parseInt (take 2 v);
             minutes = parseInt (take 2 (drop 2 v));
             seconds = parseInt (take 2 (drop 4 v))
         in if hours > 23 \<or> minutes > 59 \<or> seconds > 59 then None
            else Some \<lparr>hours = hours, minutes = minutes, seconds = seconds\<rparr>))"

text \<open>The match of \<^verbatim>\<open>/^(\d{4})-(\d{2})-(\d{2})$/\<close>, with its three groups.\<close>

definition dashed_date_exec :: "string \<Rightarrow> (string \<times> string \<times> string) option" where
  "dashed_date_exec s =
     (if length s = 10 \<and> all_digits (take 4 s) \<and> s ! 4 = CHR ''-''
         \<and> all_digits (take 2 (drop 5 s)) \<and> s ! 7 = CHR ''-''
         \<and> all_digits (take 2 (drop 8 s))
      then Some (take 4 s, take 2 (drop 5 s), take 2 (drop 8 s)) else None)"

text \<open>\<^verbatim>\<open>DATE_COMPACT_REGEX = /^(\d{4})(\d{2})(\d{2})$/\<close> (constants.ts).\<close>

definition DATE_COMPACT_REGEX_exec :: "string \<Rightarrow> (string \<times> string \<times> string) option" where
  "DATE_COMPACT_REGEX_exec s =
     (if digits_exactly 8 s then Some (take 4 s, take 2 (drop 4 s), take 2 (drop 6 s))
      else None)"

definition extractDateFromPath :: "string \<Rightarrow> DateOnly option" where
  "extractDateFromPath filepath =
     (let dir = dirname filepath;
          dayDir = basename dir
      in case dashed_date_exec dayDir of
           Some (g1, g2, g3) \<Rightarrow>
             Some \<lparr>year = parseInt g1, month = parseInt g2, day = parseInt g3\<rparr>
         | None \<Rightarrow>
             (let parts = split slash dir
              in if length parts \<ge> 3 then
                   (let dayPart = parts ! (length parts - 1);
                        monthPart = parts ! (length parts - 2);
                        yearPart = parts ! (length parts - 3)
                    in if digits_exactly 4 yearPart \<and> digits_exactly 2 monthPart
                          \<and> digits_exactly 2 dayPart then
                         (let year = parseInt yearPart;
                              month = parseInt monthPart;
                              day = parseInt dayPart
                          in if month \<ge> 1 \<and> month \<le> 12 \<and> day \<ge> 1 \<and> day \<le> 31
                             then Some \<lparr>year = year, month = month, day = day\<rparr>
                             else None)
                       else None)
                 else None))"

definition parseNested :: "string \<Rightarrow> string \<Rightarrow> merge_error + FileSortKey" where
  "parseNested filepath filename =
     (let parts = split (CHR ''-'') filename
      in case parseTimeDigits (hd parts) of
           None \<Rightarrow> Inl (UnrecognizedFilename filepath)
         | Some startTime \<Rightarrow>
             Inr \<lparr>date = extractDateFromPath filepath,
                  startHours = hours startTime,
                  startMinutes = minutes startTime,
                  startSeconds = seconds startTime\<rparr>)"

text \<open>
  \<^verbatim>\<open>parseFlat\<close> reads \<^verbatim>\<open>parts[0]\<close> and \<^verbatim>\<open>parts[1]\<close>. Its only caller has checked
  \<^verbatim>\<open>looksLikeFlatFormat\<close>, so there are three parts; the last case below is never
  reached from \<open>getSortKey\<close>.
\<close>

definition parseFlat :: "string \<Rightarrow> string \<Rightarrow> merge_error + FileSortKey" where
  "parseFlat filepath filename =
     (case split (CHR ''_'') filename of
        datePart # startPart # _ \<Rightarrow>
          (case DATE_COMPACT_REGEX_exec datePart of
             None \<Rightarrow> Inl (UnrecognizedFilename filepath)
           | Some (g1, g2, g3) \<Rightarrow>
               (case parseTimeDigits startPart of
                  None \<Rightarrow> Inl (UnrecognizedFilename filepath)
                | Some startTime \<Rightarrow>
                    Inr \<lparr>date = Some \<lparr>year = parseInt g1, month = parseInt g2, day = parseInt g3\<rparr>,
                         startHours = hours startTime,
                         startMinutes = minutes startTime,
                         startSeconds = seconds startTime\<rparr>))
      | _ \<Rightarrow> Inl (UnrecognizedFilename filepath))"

text \<open>
  \<^verbatim>\<open>basename.replace(/\.[^.]+$/, '')\<close>: the text from the last dot on is removed when
  at least one character follows that dot.
\<close>

definition remove_extension :: "string \<Rightarrow> string" where
  "remove_extension s =
     (let ext = takeWhile (\<lambda>c. c \<noteq> CHR ''.'') (rev s)
      in if ext \<noteq> [] \<and> length ext < length s then take (length s - length ext - 1) s else s)"

definition getSortKey :: "string \<Rightarrow> merge_error + FileSortKey" where
  "getSortKey filepath =
     (let filename = remove_extension (basename filepath)
      in if looksLikeFlatFormat filename then parseFlat filepath filename
         else if looksLikeNestedFormat filename then parseNested filepath filename
         else Inl (UnrecognizedFilename filepath))"

section \<open>Output path of a merge (merge.ts)\<close>

record Descriptor =
  path :: string
  key :: FileSortKey

definition extractNestedDayDirectory :: "string \<Rightarrow> (string \<times> DateOnly) option" where
  "extractNestedDayDirectory filepath =
     (case extractDateFromPath filepath of
        None \<Rightarrow> None
      | Some d \<Rightarrow> Some (dirname filepath, d))"

text \<open>
  The loop of \<^verbatim>\<open>detectCommonNestedDirectory\<close>, with its variable \<^verbatim>\<open>candidate\<close> as
  the first argument; each \<^verbatim>\<open>return null\<close> inside the loop is a \<open>None\<close>.
\<close>

fun detect_loop :: "(string \<times> DateOnly) option \<Rightarrow> string list \<Rightarrow> (string \<times> DateOnly) option" where
  "detect_loop candidate [] = candidate"
| "detect_loop candidate (filepath # rest) =
     (case extractNestedDayDirectory filepath of
        None \<Rightarrow> None
      | Some info \<Rightarrow>
          (case candidate of
             None \<Rightarrow> detect_loop (Some info) rest
           | Some c \<Rightarrow>
               if fst c \<noteq> fst info \<or> year (snd c) \<noteq> year (snd info)
                  \<or> month (snd c) \<noteq> month (snd info) \<or> day (snd c) \<noteq> day (snd info)
               then None
               else detect_loop candidate rest))"

definition detectCommonNestedDirectory :: "string list \<Rightarrow> (string \<times> DateOnly) option" where
  "detectCommonNestedDirectory paths = detect_loop None paths"

text \<open>
  The loop of \<^verbatim>\<open>determineOutputPath\<close> over the descriptors, with its variable
  \<^verbatim>\<open>selectedDate\<close> as the first argument.
\<close>

fun select_date :: "DateOnly option \<Rightarrow> Descriptor list \<Rightarrow> merge_error + DateOnly option" where
  "select_date selectedDate [] = Inr selectedDate"
| "select_date selectedDate (d # rest) =
     (case date (key d) of
        None \<Rightarrow> select_date selectedDate rest
      | Some kd \<Rightarrow>
          (case selectedDate of
             None \<Rightarrow> select_date (Some kd) rest
           | Some sel \<Rightarrow>
               if year sel \<noteq> year kd \<or> month sel \<noteq> month kd \<or> day sel \<noteq> day kd
               then Inl MixedDates
               else select_date selectedDate rest))"

text \<open>
  \<^verbatim>\<open>if (request.output)\<close> holds for a string that is present and not empty.
\<close>

definition determineOutputPath ::
    "string list \<Rightarrow> Descriptor list \<Rightarrow> MergeRequest \<Rightarrow> merge_error + string" where
  "determineOutputPath ordered descriptors request =
     (if output request \<noteq> None \<and> output request \<noteq> Some [] then Inr (the (output request))
      else
        (case detectCommonNestedDirectory ordered of
           Some common \<Rightarrow>
             Inr (path_join (fst common) (formatDateDashed (snd common) @ ''.txt''))
         | None \<Rightarrow>
             (case select_date None descriptors of
                Inl e \<Rightarrow> Inl e
              | Inr (Some selectedDate) \<Rightarrow>
                  (let baseDir = (if length ordered > 0 then dirname (hd ordered) else ''.'')
                   in Inr (path_join baseDir (formatDateDashed selectedDate @ ''.txt'')))
              | Inr None \<Rightarrow> Inl UndeterminedDate)))"

section \<open>The file system and the merge (merge.ts)\<close>

text \<open>
  The file system is a store of directory entries. An entry is a regular file with its
  content or a symbolic link. Several path strings may name one entry (a relative and an
  absolute path, a path through a linked directory): \<open>entry\<close> gives, for every path,
  the name of the entry it denotes, with the directories of the path resolved and the
  last component not followed. A link holds the name of the entry it points to. Following
  links from an entry, at most \<open>MAXSYMLINKS\<close> of them, gives what
  \<^verbatim>\<open>fs.realpathSync\<close> returns; \<open>resolve\<close> is the lexical \<^verbatim>\<open>path.resolve\<close> against
  the working directory. \<open>entry\<close>, \<open>resolve\<close>, the pattern expansion \<open>glob\<close>
  (\<open>None\<close> when it rejects the pattern) and the name \<^verbatim>\<open>.tmp-<pid>-<time>\<close> that
  \<^verbatim>\<open>atomicWrite\<close> builds from the process id and the clock are the platform's, and
  parameters of the model. Directories as entries, permissions and full disks are not
  modelled. The size of a file is the length of its content.
\<close>

datatype node = File string | Link string

type_synonym filesystem = "string \<rightharpoonup> node"

record platform =
  glob :: "string \<Rightarrow> string list option"
  entry :: "string \<Rightarrow> string"
  resolve :: "string \<Rightarrow> string"
  tempName :: string

definition MAX_FILE_SIZE :: int where
  "MAX_FILE_SIZE = 10 * 1024 * 1024"

definition MAXSYMLINKS :: nat where
  "MAXSYMLINKS = 40"

text \<open>Following links from an entry; \<open>None\<close> when the links do not end.\<close>

fun follow :: "nat \<Rightarrow> filesystem \<Rightarrow> string \<Rightarrow> string option" where
  "follow 0 fs k = None"
| "follow (Suc n) fs k =
     (case fs k of
        Some (Link target) \<Rightarrow> follow n fs target
      | _ \<Rightarrow> Some k)"

definition realpath :: "platform \<Rightarrow> filesystem \<Rightarrow> string \<Rightarrow> string option" where
  "realpath pf fs p = follow MAXSYMLINKS fs (entry pf p)"

text \<open>
  \<^verbatim>\<open>fs.readFileSync\<close> and \<^verbatim>\<open>fs.statSync\<close> follow links and fail unless they reach a
  file; \<^verbatim>\<open>fs.existsSync\<close> says whether they would succeed.
\<close>

definition readFileSync :: "platform \<Rightarrow> filesystem \<Rightarrow> string \<Rightarrow> string option" where
  "readFileSync pf fs p =
     (case realpath pf fs p of
        None \<Rightarrow> None
      | Some k \<Rightarrow> (case fs k of Some (File content) \<Rightarrow> Some content | _ \<Rightarrow> None))"

definition existsSync :: "platform \<Rightarrow> filesystem \<Rightarrow> string \<Rightarrow> bool" where
  "existsSync pf fs p = (readFileSync pf fs p \<noteq> None)"

text \<open>\<^verbatim>\<open>fs.unlinkSync\<close> removes the entry itself, a link and not what it points to.\<close>

definition unlinkSync :: "platform \<Rightarrow> filesystem \<Rightarrow> string \<Rightarrow> filesystem option" where
  "unlinkSync pf fs p =
     (if fs (entry pf p) \<noteq> None then Some (fs (entry pf p := None)) else None)"

text \<open>
  \<^verbatim>\<open>fs.writeFileSync\<close> writes through links, creating the file where they end.
  \<^verbatim>\<open>fs.renameSync\<close> moves an entry onto another name and replaces the entry that was
  there, a link included; renaming an entry onto itself changes nothing.
\<close>

definition writeFileSync :: "platform \<Rightarrow> filesystem \<Rightarrow> string \<Rightarrow> string \<Rightarrow> filesystem option" where
  "writeFileSync pf fs p content =
     (case realpath pf fs p of
        None \<Rightarrow> None
      | Some k \<Rightarrow> Some (fs (k \<mapsto> File content)))"

definition renameSync :: "platform \<Rightarrow> filesystem \<Rightarrow> string \<Rightarrow> string \<Rightarrow> filesystem option" where
  "renameSync pf fs oldPath newPath =
     (case fs (entry pf oldPath) of
        None \<Rightarrow> None
      | Some nd \<Rightarrow>
          Some (if entry pf oldPath = entry pf newPath then fs
                else (fs (entry pf oldPath := None)) (entry pf newPath \<mapsto> nd)))"

text \<open>
  \<^verbatim>\<open>atomicWrite\<close> (update.ts): the content goes to a temporary file in the directory of
  the target, which is then renamed onto the target. When a step fails the temporary
  entry is removed, a failure of that removal is ignored, and the error is thrown again.
  The result says whether the write succeeded, with the file system it leaves.
\<close>

definition atomicWrite ::
    "platform \<Rightarrow> filesystem \<Rightarrow> string \<Rightarrow> string \<Rightarrow> bool \<times> filesystem" where
  "atomicWrite pf fs filePath content =
     (let dir = dirname filePath;
          tempPath = path_join dir (tempName pf)
      in case writeFileSync pf fs tempPath content of
           None \<Rightarrow> (False, (case unlinkSync pf fs tempPath of None \<Rightarrow> fs | Some fs' \<Rightarrow> fs'))
         | Some fs1 \<Rightarrow>
             (case renameSync pf fs1 tempPath filePath of
                None \<Rightarrow> (False, (case unlinkSync pf fs1 tempPath of None \<Rightarrow> fs1 | Some fs' \<Rightarrow> fs'))
              | Some fs2 \<Rightarrow> (True, fs2)))"

text \<open>
  The expression \<^verbatim>\<open>fs.existsSync(p) ? fs.realpathSync(p) : path.resolve(p)\<close>, which
  the merge uses three times.
\<close>

definition canonical :: "platform \<Rightarrow> filesystem \<Rightarrow> string \<Rightarrow> string" where
  "canonical pf fs p =
     (if existsSync pf fs p
      then (case realpath pf fs p of Some k \<Rightarrow> k | None \<Rightarrow> resolve pf p)
      else resolve pf p)"

text \<open>The loop of \<^verbatim>\<open>writeMergedFile\<close>, with \<^verbatim>\<open>merged\<close> as an accumulator.\<close>

fun merge_contents :: "platform \<Rightarrow> filesystem \<Rightarrow> string \<Rightarrow> string list \<Rightarrow> string option" where
  "merge_contents pf fs merged [] = Some merged"
| "merge_contents pf fs merged (f # rest) =
     (case readFileSync pf fs f of
        None \<Rightarrow> None
      | Some content \<Rightarrow>
          (let merged1 = merged @ content;
               merged2 = (if rest \<noteq> [] \<and> \<not> endsWith merged1 nl then merged1 @ [nl] else merged1)
           in merge_contents pf fs merged2 rest))"

text \<open>
  \<^verbatim>\<open>writeMergedFile\<close>: a source that cannot be read stops it before anything is
  written.
\<close>

definition writeMergedFile ::
    "platform \<Rightarrow> filesystem \<Rightarrow> string list \<Rightarrow> string \<Rightarrow> bool \<times> filesystem" where
  "writeMergedFile pf fs fls outPath =
     (case merge_contents pf fs [] fls of
        None \<Rightarrow> (False, fs)
      | Some merged \<Rightarrow> atomicWrite pf fs outPath merged)"

text \<open>
  The loop of \<^verbatim>\<open>deleteSources\<close>. The result says whether the loop finished, together
  with the file system as it is at that moment: a failing removal leaves the earlier
  removals done.
\<close>

fun delete_loop :: "platform \<Rightarrow> string \<Rightarrow> filesystem \<Rightarrow> string list \<Rightarrow> bool \<times> filesystem" where
  "delete_loop pf outputCanonical fs [] = (True, fs)"
| "delete_loop pf outputCanonical fs (filepath # rest) =
     (if canonical pf fs filepath = outputCanonical then delete_loop pf outputCanonical fs rest
      else
        (case unlinkSync pf fs filepath of
           None \<Rightarrow> (False, fs)
         | Some fs' \<Rightarrow> delete_loop pf outputCanonical fs' rest))"

definition deleteSources :: "platform \<Rightarrow> filesystem \<Rightarrow> string list \<Rightarrow> string \<Rightarrow> bool \<times> filesystem" where
  "deleteSources pf fs fls outPath = delete_loop pf (canonical pf fs outPath) fs fls"

text \<open>The three loops at the start of \<^verbatim>\<open>executeMerge\<close>; each stops at its first error.\<close>

fun expand_patterns :: "platform \<Rightarrow> string list \<Rightarrow> merge_error + string list" where
  "expand_patterns pf [] = Inr []"
| "expand_patterns pf (pattern # rest) =
     (case glob pf pattern of
        None \<Rightarrow> Inl (InvalidGlobPattern pattern)
      | Some matches \<Rightarrow>
          if length matches = 0 then Inl (NoMatches pattern)
          else (case expand_patterns pf rest of
                  Inl e \<Rightarrow> Inl e
                | Inr collected \<Rightarrow> Inr (matches @ collected)))"

fun check_sizes :: "platform \<Rightarrow> filesystem \<Rightarrow> string list \<Rightarrow> merge_error option" where
  "check_sizes pf fs [] = None"
| "check_sizes pf fs (filepath # rest) =
     (case readFileSync pf fs filepath of
        None \<Rightarrow> Some IOError
      | Some content \<Rightarrow>
          if int (length content) > MAX_FILE_SIZE
          then Some (FileTooLarge filepath (int (length content)) MAX_FILE_SIZE)
          else check_sizes pf fs rest)"

fun make_descriptors :: "string list \<Rightarrow> merge_error + Descriptor list" where
  "make_descriptors [] = Inr []"
| "make_descriptors (filepath # rest) =
     (case getSortKey filepath of
        Inl e \<Rightarrow> Inl e
      | Inr k \<Rightarrow>
          (case make_descriptors rest of
             Inl e \<Rightarrow> Inl e
           | Inr ds \<Rightarrow> Inr (\<lparr>path = filepath, key = k\<rparr> # ds)))"

text \<open>
  \<^verbatim>\<open>descriptors.sort((a, b) => compareSortKeys(a.key, b.key))\<close>. The platform's sort is
  stable; it is modelled as the stable insertion sort, which puts an element before the
  first one that the comparator does not place before it.
\<close>

fun insert_descriptor :: "Descriptor \<Rightarrow> Descriptor list \<Rightarrow> Descriptor list" where
  "insert_descriptor x [] = [x]"
| "insert_descriptor x (y # ys) =
     (if compareSortKeys (key x) (key y) \<le> 0 then x # y # ys
      else y # insert_descriptor x ys)"

definition sort_descriptors :: "Descriptor list \<Rightarrow> Descriptor list" where
  "sort_descriptors ds = foldr insert_descriptor ds []"

text \<open>The deduplication loop, with \<^verbatim>\<open>ordered\<close> as an accumulator.\<close>

fun dedupe_loop :: "string list \<Rightarrow> Descriptor list \<Rightarrow> string list" where
  "dedupe_loop ordered [] = ordered"
| "dedupe_loop ordered (d # rest) =
     dedupe_loop
       (if length ordered = 0 \<or> last ordered \<noteq> path d then ordered @ [path d] else ordered)
       rest"

text \<open>
  \<^verbatim>\<open>executeMerge\<close> returns its outcome or the error it throws, and the file system it
  leaves behind.
\<close>

definition executeMerge ::
    "platform \<Rightarrow> filesystem \<Rightarrow> MergeRequest \<Rightarrow> (merge_error + MergeOutcome) \<times> filesystem" where
  "executeMerge pf fs request =
     (case expand_patterns pf (patterns request) of
        Inl e \<Rightarrow> (Inl e, fs)
      | Inr collected \<Rightarrow>
          (case check_sizes pf fs collected of
             Some e \<Rightarrow> (Inl e, fs)
           | None \<Rightarrow>
               (case make_descriptors collected of
                  Inl e \<Rightarrow> (Inl e, fs)
                | Inr unsorted \<Rightarrow>
                    (let descriptors = sort_descriptors unsorted;
                         ordered = dedupe_loop [] descriptors
                     in case determineOutputPath ordered descriptors request of
                          Inl e \<Rightarrow> (Inl e, fs)
                        | Inr outPath \<Rightarrow>
                            (let outputCanonical = canonical pf fs outPath;
                                 sourcesToMerge =
                                   filter (\<lambda>filepath. canonical pf fs filepath \<noteq> outputCanonical)
                                     ordered
                             in case writeMergedFile pf fs sourcesToMerge outPath of
                                  (False, fs1) \<Rightarrow> (Inl IOError, fs1)
                                | (True, fs1) \<Rightarrow>
                                    if \<not> noDelete request then
                                      (case deleteSources pf fs1 sourcesToMerge outPath of
                                         (False, fs2) \<Rightarrow> (Inl IOError, fs2)
                                       | (True, fs2) \<Rightarrow>
                                           (Inr \<lparr>files = sourcesToMerge, outputPath = outPath\<rparr>, fs2))
                                    else (Inr \<lparr>files = sourcesToMerge, outputPath = outPath\<rparr>, fs1))))))"

section \<open>Notions used to state the properties\<close>

text \<open>The value of two decimal digits.\<close>

definition two_digits :: "char \<Rightarrow> char \<Rightarrow> int" where
  "two_digits a b = 10 * the (digit_val a) + the (digit_val b)"

text \<open>
  A string of the exact shape \<^verbatim>\<open>hh:mm:ss\<close>: eight characters, two-digit fields, colons
  between them, with hh from 0 to 23 and mm, ss from 0 to 59.
\<close>

definition valid_time_string :: "string \<Rightarrow> bool" where
  "valid_time_string s =
     (case s of
        [h1, h2, c1, m1, m2, c2, s1, s2] \<Rightarrow>
          is_digit h1 \<and> is_digit h2 \<and> c1 = CHR '':'' \<and> is_digit m1 \<and> is_digit m2
          \<and> c2 = CHR '':'' \<and> is_digit s1 \<and> is_digit s2
          \<and> two_digits h1 h2 \<le> 23 \<and> two_digits m1 m2 \<le> 59 \<and> two_digits s1 s2 \<le> 59
      | _ \<Rightarrow> False)"


text \<open>
  A line carries a recognizable leading timestamp: at least 8 characters, the first 8 of
  which are a valid time string.
\<close>

definition has_leading_timestamp :: "string \<Rightarrow> bool" where
  "has_leading_timestamp l = (length l \<ge> 8 \<and> valid_time_string (take 8 l))"

text \<open>The adjusted datetimes of a text, one per timestamp line, in file order.\<close>

definition adjusted_datetimes :: "Time \<Rightarrow> DateOnly \<Rightarrow> string \<Rightarrow> DateTime list" where
  "adjusted_datetimes baseTime effectiveDate contents =
     map (\<lambda>l. applyOffset baseTime effectiveDate (the (parseTime (take 8 l))))
       (filter has_leading_timestamp (split nl contents))"

text \<open>Lexicographic order on lists of numbers of equal length.\<close>

fun lex_less :: "int list \<Rightarrow> int list \<Rightarrow> bool" where
  "lex_less (x # xs) (y # ys) = (x < y \<or> (x = y \<and> lex_less xs ys))"
| "lex_less _ _ = False"

definition datetime_less :: "DateTime \<Rightarrow> DateTime \<Rightarrow> bool" where
  "datetime_less a b =
     lex_less [dt_year a, dt_month a, dt_day a, dt_hours a, dt_minutes a, dt_seconds a]
              [dt_year b, dt_month b, dt_day b, dt_hours b, dt_minutes b, dt_seconds b]"

text \<open>Some datetime of the list is strictly less than the one just before it.\<close>

fun has_decrease :: "DateTime list \<Rightarrow> bool" where
  "has_decrease (x # y # rest) = (datetime_less y x \<or> has_decrease (y # rest))"
| "has_decrease _ = False"

text \<open>The number of line feeds a text ends with.\<close>

definition trailing_newlines :: "string \<Rightarrow> nat" where
  "trailing_newlines s = length (takeWhile (\<lambda>c. c = nl) (rev s))"

text \<open>
  The order of sort keys as the program has it: a key without a date is before every key
  with a date; two dated keys are ordered by (year, month, day) and then start time; two
  keys without a date by start time only.
\<close>

definition key_before :: "FileSortKey \<Rightarrow> FileSortKey \<Rightarrow> bool" where
  "key_before a b =
     (case (date a, date b) of
        (None, Some db) \<Rightarrow> True
      | (Some da, None) \<Rightarrow> False
      | (Some da, Some db) \<Rightarrow>
          lex_less [year da, month da, day da, startHours a, startMinutes a, startSeconds a]
                   [year db, month db, day db, startHours b, startMinutes b, startSeconds b]
      | (None, None) \<Rightarrow>
          lex_less [startHours a, startMinutes a, startSeconds a]
                   [startHours b, startMinutes b, startSeconds b])"

text \<open>What \<^verbatim>\<open>adjustTranscript\<close> makes of one line.\<close>

definition adjusted_line :: "Time \<Rightarrow> DateOnly \<Rightarrow> string \<Rightarrow> string" where
  "adjusted_line baseTime effectiveDate line =
     (if has_leading_timestamp line
      then formatTime (time_of (applyOffset baseTime effectiveDate (the (parseTime (take 8 line)))))
             @ drop 8 line
      else line)"

text \<open>The adjusted datetimes of a list of lines.\<close>

definition datetimes_of :: "Time \<Rightarrow> DateOnly \<Rightarrow> string list \<Rightarrow> DateTime list" where
  "datetimes_of bt d ls =
     map (\<lambda>l. applyOffset bt d (the (parseTime (take 8 l)))) (filter has_leading_timestamp ls)"

text \<open>The base time and date of the examples.\<close>

definition example_time :: Time where
  "example_time = \<lparr>hours = 18, minutes = 1, seconds = 12\<rparr>"

definition example_date :: DateOnly where
  "example_date = \<lparr>year = 2024, month = 12, day = 25\<rparr>"

text \<open>The dates the descriptors carry, in order.\<close>

definition dates_present :: "Descriptor list \<Rightarrow> DateOnly list" where
  "dates_present ds = List.map_filter (\<lambda>d. date (key d)) ds"

text \<open>
  The date a directory name gives, in the words of the specification. A directory named
  \<^verbatim>\<open>YYYY-MM-DD\<close> gives that date. Otherwise, directory segments that end in
  \<^verbatim>\<open>YYYY/MM/DD\<close>, of four, two and two digits with the month from 1 to 12 and the day
  from 1 to 31, give that date. The numbers are read off the digits.
\<close>

definition four_digits :: "char \<Rightarrow> char \<Rightarrow> char \<Rightarrow> char \<Rightarrow> int" where
  "four_digits a b c d = 100 * two_digits a b + two_digits c d"

fun dashed_directory_date :: "string \<Rightarrow> DateOnly option" where
  "dashed_directory_date [y1, y2, y3, y4, s1, m1, m2, s2, d1, d2] =
     (if list_all is_digit [y1, y2, y3, y4, m1, m2, d1, d2]
         \<and> s1 = CHR ''-'' \<and> s2 = CHR ''-''
      then Some \<lparr>year = four_digits y1 y2 y3 y4, month = two_digits m1 m2,
                 day = two_digits d1 d2\<rparr>
      else None)"
| "dashed_directory_date _ = None"

fun date_of_segments :: "string \<Rightarrow> string \<Rightarrow> string \<Rightarrow> DateOnly option" where
  "date_of_segments [y1, y2, y3, y4] [m1, m2] [d1, d2] =
     (if list_all is_digit [y1, y2, y3, y4, m1, m2, d1, d2]
         \<and> 1 \<le> two_digits m1 m2 \<and> two_digits m1 m2 \<le> 12
         \<and> 1 \<le> two_digits d1 d2 \<and> two_digits d1 d2 \<le> 31
      then Some \<lparr>year = four_digits y1 y2 y3 y4, month = two_digits m1 m2,
                 day = two_digits d1 d2\<rparr>
      else None)"
| "date_of_segments _ _ _ = None"

definition nested_directory_date :: "string list \<Rightarrow> DateOnly option" where
  "nested_directory_date segments =
     (case rev segments of
        dd # mm # yyyy # _ \<Rightarrow> date_of_segments yyyy mm dd
      | _ \<Rightarrow> None)"

text \<open>
  The directory-derived date information of a file: its parent directory, with the date
  that the name of that directory or its last three segments give.
\<close>

definition day_directory :: "string \<Rightarrow> (string \<times> DateOnly) option" where
  "day_directory filepath =
     (let dir = dirname filepath
      in case dashed_directory_date (basename dir) of
           Some d \<Rightarrow> Some (dir, d)
         | None \<Rightarrow>
             (case nested_directory_date (split slash dir) of
                Some d \<Rightarrow> Some (dir, d)
              | None \<Rightarrow> None))"

text \<open>
  The day directory that all files share: every file has directory-derived date
  information, and it is the same directory and the same date for all of them.
\<close>

definition common_day_directory :: "string list \<Rightarrow> (string \<times> DateOnly) option" where
  "common_day_directory ordered =
     (case ordered of
        [] \<Rightarrow> None
      | p # ps \<Rightarrow>
          (case day_directory p of
             None \<Rightarrow> None
           | Some info \<Rightarrow>
               if list_all (\<lambda>q. day_directory q = Some info) ps then Some info else None))"

text \<open>
  The text \<^verbatim>\<open>YYYY-MM-DD\<close> of a date: the year in four decimal digits, the month and
  the day in two, with leading zeros.
\<close>

fun decimal_digits :: "nat \<Rightarrow> nat \<Rightarrow> string" where
  "decimal_digits 0 v = []"
| "decimal_digits (Suc n) v = decimal_digits n (v div 10) @ [digit_char (v mod 10)]"

definition date_YYYY_MM_DD :: "DateOnly \<Rightarrow> string" where
  "date_YYYY_MM_DD d =
     decimal_digits 4 (nat (year d)) @ ''-'' @ decimal_digits 2 (nat (month d))
       @ ''-'' @ decimal_digits 2 (nat (day d))"

text \<open>
  A date whose year has four digits (1000 to 9999) and whose month and day have at most
  two; and the dates that the directories of the files give.
\<close>

definition four_digit_date :: "DateOnly \<Rightarrow> bool" where
  "four_digit_date d =
     (1000 \<le> year d \<and> year d \<le> 9999 \<and> 0 \<le> month d \<and> month d \<le> 99
      \<and> 0 \<le> day d \<and> day d \<le> 99)"

definition directory_dates :: "string list \<Rightarrow> DateOnly list" where
  "directory_dates ordered = List.map_filter (\<lambda>p. map_option snd (day_directory p)) ordered"

text \<open>
  The output path in the priority order of the specification: the explicit output; else
  the shared day directory with the file \<^verbatim>\<open><YYYY-MM-DD>.txt\<close> of its date; else, when
  the dated files agree on one date, the directory of the first file with the file
  \<^verbatim>\<open><YYYY-MM-DD>.txt\<close> of that date, and \<^verbatim>\<open>MixedDates\<close> when they disagree; else
  \<^verbatim>\<open>UndeterminedDate\<close>. A file is put into a directory as \<^verbatim>\<open>path.join\<close> does it.
  With no file at all the directory is \<^verbatim>\<open>.\<close>, a case the merge reaches only without
  any date.
\<close>

definition output_path_spec ::
    "string list \<Rightarrow> Descriptor list \<Rightarrow> MergeRequest \<Rightarrow> merge_error + string" where
  "output_path_spec ordered descriptors request =
     (case (output request, common_day_directory ordered, dates_present descriptors) of
        (Some (c # cs), _, _) \<Rightarrow> Inr (c # cs)
      | (_, Some (dir, d), _) \<Rightarrow> Inr (path_join dir (date_YYYY_MM_DD d @ ''.txt''))
      | (_, None, []) \<Rightarrow> Inl UndeterminedDate
      | (_, None, d # ds) \<Rightarrow>
          if list_all (\<lambda>e. e = d) ds
          then Inr (path_join (case ordered of [] \<Rightarrow> ''.'' | p # _ \<Rightarrow> dirname p)
                      (date_YYYY_MM_DD d @ ''.txt''))
          else Inl MixedDates)"

text \<open>
  A file name the sort-key extractor recognizes: the name without directory and extension
  has the flat shape (three parts of 8, 6 and 6 digits between underscores) or the nested
  shape (two parts of 6 digits around a hyphen), and its start-time field (the second
  part of a flat name, the first of a nested one) has hours up to 23 and minutes and
  seconds up to 59.
\<close>

definition time_digits_in_range :: "string \<Rightarrow> bool" where
  "time_digits_in_range s =
     (two_digits (s ! 0) (s ! 1) \<le> 23 \<and> two_digits (s ! 2) (s ! 3) \<le> 59
      \<and> two_digits (s ! 4) (s ! 5) \<le> 59)"

definition start_field :: "string \<Rightarrow> string" where
  "start_field name =
     (if looksLikeFlatFormat name then split (CHR ''_'') name ! 1
      else hd (split (CHR ''-'') name))"

definition recognised :: "string \<Rightarrow> bool" where
  "recognised filepath =
     (let name = remove_extension (basename filepath)
      in (looksLikeFlatFormat name \<or> looksLikeNestedFormat name)
         \<and> time_digits_in_range (start_field name))"

text \<open>
  A platform for the examples: every path is the name of its own entry, a pattern expands
  as the given table says (a pattern without entry is rejected), and the temporary name
  is one that no example uses.
\<close>

definition plain_platform :: "(string \<times> string list) list \<Rightarrow> platform" where
  "plain_platform table =
     \<lparr>glob = map_of table, entry = (\<lambda>p. p), resolve = (\<lambda>p. p),
      tempName = ''.tmp-4242-1762174800000''\<rparr>"

text \<open>The platform on which each of the given paths is a pattern that matches itself.\<close>

definition literal_platform :: "string list \<Rightarrow> platform" where
  "literal_platform paths = plain_platform (map (\<lambda>p. (p, [p])) paths)"



definition fs_with_notes :: filesystem where
  "fs_with_notes =
     [''/d/2025/01/27/112256-162256.txt'' \<mapsto> File (''valid'' @ [nl]),
      ''/d/2025/01/27/notes.txt'' \<mapsto> File (''invalid'' @ [nl])]"

definition fs_bad_end_time :: filesystem where
  "fs_bad_end_time = [''/d/2025/01/27/112256-996161.txt'' \<mapsto> File (''segment'' @ [nl])]"

definition fs_same_start :: filesystem where
  "fs_same_start =
     [''/d/2025/01/27/112256-162256.txt'' \<mapsto> File (''first'' @ [nl]),
      ''/d/2025/01/27/112256-172256.txt'' \<mapsto> File (''second'' @ [nl])]"

definition fs_year_50 :: filesystem where
  "fs_year_50 = [''/d/0050/01/27/061901-111901.txt'' \<mapsto> File (''segment'' @ [nl])]"

text \<open>The sorted descriptors of a list of recognized paths, for the examples.\<close>

definition descriptors_of :: "string list \<Rightarrow> Descriptor list" where
  "descriptors_of ps = sort_descriptors (projr (make_descriptors ps))"

section \<open>Parsing and formatting a time\<close>

lemma length8_conv: "length s = 8 \<longleftrightarrow> (\<exists>a b c d e f g h. s = [a, b, c, d, e, f, g, h])"
  by (auto simp: numeral_eq_Suc length_Suc_conv)

lemma is_digit_cases:
  assumes "is_digit c"
  obtains n where "n \<le> 9" "digit_val c = Some (int n)" "digit_char n = c"
proof -
  from assms have "\<exists>n\<le>9. digit_val c = Some (int n) \<and> digit_char n = c"
    unfolding is_digit_def digit_val_def digit_char_def
    by (auto split: if_splits
        intro: exI[of _ 0] exI[of _ 1] exI[of _ 2] exI[of _ 3] exI[of _ 4]
          exI[of _ 5] exI[of _ 6] exI[of _ 7] exI[of _ 8] exI[of _ 9])
  then show thesis using that by blast
qed

lemma parseInt_two: "is_digit a \<Longrightarrow> is_digit b \<Longrightarrow> parseInt [a, b] = two_digits a b"
  by (simp add: parseInt_def two_digits_def)

lemma padStart2_String:
  assumes "n1 \<le> 9" "n2 \<le> 9"
  shows "padStart2 (String (10 * int n1 + int n2)) = [digit_char n1, digit_char n2]"
proof (cases "n1 = 0")
  case True
  then show ?thesis using assms
    by (simp add: String_def padStart2_def digits_of_nat.simps[of n2] digit_char_def)
next
  case False
  have eq: "nat (10 * int n1 + int n2) = 10 * n1 + n2" by simp
  have "digits_of_nat (10 * n1 + n2) = [digit_char n1, digit_char n2]"
    using False assms
    by (simp add: digits_of_nat.simps[of "10 * n1 + n2"] digits_of_nat.simps[of n1])
  then show ?thesis by (simp add: String_def padStart2_def eq)
qed

lemma two_digits_format:
  assumes "is_digit a" "is_digit b"
  shows "padStart2 (String (two_digits a b)) = [a, b]" and "0 \<le> two_digits a b"
proof -
  from assms(1) obtain n1 where n1: "n1 \<le> 9" "digit_val a = Some (int n1)" "digit_char n1 = a"
    by (rule is_digit_cases)
  from assms(2) obtain n2 where n2: "n2 \<le> 9" "digit_val b = Some (int n2)" "digit_char n2 = b"
    by (rule is_digit_cases)
  show "padStart2 (String (two_digits a b)) = [a, b]"
    using padStart2_String[OF n1(1) n2(1)] n1 n2 by (simp add: two_digits_def)
  show "0 \<le> two_digits a b" using n1 n2 by (simp add: two_digits_def)
qed

lemma parseTime_shape:
  "parseTime s =
     (if valid_time_string s
      then Some \<lparr>hours = two_digits (s ! 0) (s ! 1), minutes = two_digits (s ! 3) (s ! 4),
                 seconds = two_digits (s ! 6) (s ! 7)\<rparr>
      else None)"
proof (cases "length s = 8")
  case True
  then obtain a b c d e f g h where s: "s = [a, b, c, d, e, f, g, h]"
    unfolding length8_conv by blast
  show ?thesis
    unfolding s
    by (auto simp: parseTime_def TIME_REGEX_exec_def all_digits_def valid_time_string_def
        parseInt_two Let_def)
next
  case False
  then have "parseTime s = None"
    by (simp add: parseTime_def TIME_REGEX_exec_def)
  moreover have "\<not> valid_time_string s"
    using False unfolding valid_time_string_def
    by (auto split: list.splits)
  ultimately show ?thesis by simp
qed

text \<open>
  C4. For every string of the exact shape \<^verbatim>\<open>hh:mm:ss\<close> with hh from 0 to 23 and mm, ss
  from 0 to 59, \<^verbatim>\<open>parseTime\<close> succeeds and \<^verbatim>\<open>formatTime\<close> of its result is the string
  again; for every other string \<^verbatim>\<open>parseTime\<close> returns null.
\<close>

theorem C4_parseTime_formatTime_roundtrip:
  "(valid_time_string s \<longrightarrow> (\<exists>t. parseTime s = Some t \<and> formatTime t = s))
   \<and> (\<not> valid_time_string s \<longrightarrow> parseTime s = None)"
proof (intro conjI impI)
  assume v: "valid_time_string s"
  then obtain a b c d e f g h where s: "s = [a, b, c, d, e, f, g, h]"
    unfolding valid_time_string_def by (auto split: list.splits)
  from v have dig: "is_digit a" "is_digit b" "is_digit d" "is_digit e" "is_digit g" "is_digit h"
    and col: "c = CHR '':''" "f = CHR '':''"
    unfolding s valid_time_string_def by simp_all
  have "formatTime \<lparr>hours = two_digits a b, minutes = two_digits d e, seconds = two_digits g h\<rparr> = s"
    unfolding s formatTime_def using dig col
    by (simp add: two_digits_format(1))
  then show "\<exists>t. parseTime s = Some t \<and> formatTime t = s"
    using v by (simp add: parseTime_shape s)
next
  assume "\<not> valid_time_string s"
  then show "parseTime s = None" by (simp add: parseTime_shape)
qed

theorem C4_roundtrip_witness:
  "valid_time_string ''18:01:12''
   \<and> (\<exists>t. parseTime ''18:01:12'' = Some t \<and> formatTime t = ''18:01:12'')
   \<and> \<not> valid_time_string ''24:00:00'' \<and> parseTime ''24:00:00'' = None"
proof -
  have a: "valid_time_string ''18:01:12''"
    by (simp add: valid_time_string_def is_digit_def digit_val_def two_digits_def)
  have b: "\<not> valid_time_string ''24:00:00''"
    by (simp add: valid_time_string_def is_digit_def digit_val_def two_digits_def)
  show ?thesis
    using a b C4_parseTime_formatTime_roundtrip[of "''18:01:12''"]
      C4_parseTime_formatTime_roundtrip[of "''24:00:00''"]
    by blast
qed

section \<open>Offsets and midnight overflow\<close>







lemma addDays_year_end: "addDays \<lparr>year = 2024, month = 12, day = 31\<rparr> 1 = \<lparr>year = 2025, month = 1, day = 1\<rparr>"
  by code_simp

section \<open>The pass over the lines of a transcript\<close>

lemma parseTimestampLine_iff:
  "parseTimestampLine l =
     (if has_leading_timestamp l then Some (the (parseTime (take 8 l)), drop 8 l) else None)"
  by (auto simp: parseTimestampLine_def has_leading_timestamp_def parseTime_shape)

lemma compareDateTime_less_iff: "compareDateTime a b < 0 \<longleftrightarrow> datetime_less a b"
  by (auto simp: compareDateTime_def datetime_less_def)

text \<open>The datetimes of a list of lines, and the loop over them from any state.\<close>

lemma adjust_line_simps:
  "has_leading_timestamp l \<Longrightarrow>
     adjust_line bt d st l =
       (let adjusted = applyOffset bt d (the (parseTime (take 8 l)))
        in \<lparr>adjustedLines = adjustedLines st @ [adjusted_line bt d l],
            st_firstTimestamp =
              (if st_firstTimestamp st = None then Some adjusted else st_firstTimestamp st),
            st_lastTimestamp = Some adjusted,
            previousTimestamp = Some adjusted,
            hasOutOfOrder =
              (hasOutOfOrder st \<or>
               (case previousTimestamp st of Some prev \<Rightarrow> datetime_less adjusted prev
                | None \<Rightarrow> False))\<rparr>)"
  "\<not> has_leading_timestamp l \<Longrightarrow>
     adjust_line bt d st l = st\<lparr>adjustedLines := adjustedLines st @ [adjusted_line bt d l]\<rparr>"
  by (auto simp: adjust_line_def parseTimestampLine_iff adjusted_line_def Let_def
      compareDateTime_less_iff split: option.splits)

lemma datetimes_of_simps:
  "datetimes_of bt d [] = []"
  "has_leading_timestamp l \<Longrightarrow>
     datetimes_of bt d (l # ls) = applyOffset bt d (the (parseTime (take 8 l))) # datetimes_of bt d ls"
  "\<not> has_leading_timestamp l \<Longrightarrow> datetimes_of bt d (l # ls) = datetimes_of bt d ls"
  by (simp_all add: datetimes_of_def)

lemma foldl_adjust_line:
  "foldl (adjust_line bt d) st ls =
     \<lparr>adjustedLines = adjustedLines st @ map (adjusted_line bt d) ls,
      st_firstTimestamp =
        (case st_firstTimestamp st of
           Some f \<Rightarrow> Some f
         | None \<Rightarrow> (case datetimes_of bt d ls of [] \<Rightarrow> None | t # _ \<Rightarrow> Some t)),
      st_lastTimestamp =
        (if datetimes_of bt d ls = [] then st_lastTimestamp st else Some (last (datetimes_of bt d ls))),
      previousTimestamp =
        (if datetimes_of bt d ls = [] then previousTimestamp st
         else Some (last (datetimes_of bt d ls))),
      hasOutOfOrder =
        (hasOutOfOrder st \<or>
         has_decrease (case previousTimestamp st of None \<Rightarrow> datetimes_of bt d ls
                       | Some p \<Rightarrow> p # datetimes_of bt d ls))\<rparr>"
proof (induction ls arbitrary: st)
  case Nil
  then show ?case
    by (cases st) (simp add: datetimes_of_simps split: option.splits)
next
  case (Cons l ls)
  show ?case
  proof (cases "has_leading_timestamp l")
    case True
    show ?thesis
      unfolding foldl_Cons Cons.IH
      by (simp add: adjust_line_simps(1)[OF True] datetimes_of_simps(2)[OF True] Let_def
          split: option.splits list.splits)
  next
    case False
    show ?thesis
      unfolding foldl_Cons Cons.IH
      by (simp add: adjust_line_simps(2)[OF False] datetimes_of_simps(3)[OF False]
          split: option.splits)
  qed
qed

lemma split_not_Nil [simp]: "split sep s \<noteq> []"
  by (induction s) (auto split: list.splits)

lemma split_Cons_other:
  "c \<noteq> sep \<Longrightarrow> split sep (c # cs) = (c # hd (split sep cs)) # tl (split sep cs)"
  by (cases "split sep cs") simp_all

lemma split_no_sep: "l \<in> set (split sep s) \<Longrightarrow> sep \<notin> set l"
proof (induction s arbitrary: l)
  case Nil
  then show ?case by simp
next
  case (Cons c cs)
  show ?case
  proof (cases "c = sep")
    case True
    with Cons show ?thesis by auto
  next
    case False
    obtain x xs where sp: "split sep cs = x # xs"
      by (cases "split sep cs") simp_all
    with Cons False show ?thesis by auto
  qed
qed

lemma join_split: "join sep (split sep s) = s"
proof (induction s)
  case Nil
  then show ?case by simp
next
  case (Cons c cs)
  obtain x xs where sp: "split sep cs = x # xs"
    by (cases "split sep cs") simp_all
  show ?case
  proof (cases "c = sep")
    case True
    with Cons sp show ?thesis by simp
  next
    case False
    with Cons sp show ?thesis by (cases xs) simp_all
  qed
qed

lemma join_snoc: "xs \<noteq> [] \<Longrightarrow> join sep (xs @ [l]) = join sep xs @ sep # l"
  by (induction sep xs rule: join.induct) simp_all

lemma split_append_sep: "split sep (s @ [sep]) = split sep s @ [[]]"
proof (induction s)
  case Nil
  then show ?case by simp
next
  case (Cons c cs)
  obtain x xs where sp: "split sep cs = x # xs"
    by (cases "split sep cs") simp_all
  with Cons show ?case by simp
qed

lemma endsWith_conv: "endsWith s c \<longleftrightarrow> (\<exists>t. s = t @ [c])"
  unfolding endsWith_def
  by (metis append_butlast_last_id last_snoc snoc_eq_iff_butlast)

lemma not_has_leading_timestamp_Nil [simp]: "\<not> has_leading_timestamp []"
  by (simp add: has_leading_timestamp_def)

lemma adjusted_line_Nil [simp]: "adjusted_line bt d [] = []"
  by (simp add: adjusted_line_def)

lemma transcript_lines_cases:
  "(endsWith c nl \<and> split nl c = transcript_lines c @ [[]] \<and> transcript_lines c \<noteq> [])
   \<or> (\<not> endsWith c nl \<and> transcript_lines c = split nl c)"
proof (cases "endsWith c nl")
  case True
  then obtain t where t: "c = t @ [nl]" unfolding endsWith_conv by blast
  have "split nl c = split nl t @ [[]]" unfolding t by (rule split_append_sep)
  then show ?thesis using True by (simp add: transcript_lines_def Let_def)
next
  case False
  then show ?thesis by (simp add: transcript_lines_def Let_def)
qed

lemma datetimes_of_transcript_lines:
  "datetimes_of bt d (transcript_lines c) = adjusted_datetimes bt d c"
  using transcript_lines_cases[of c]
  by (auto simp: datetimes_of_def adjusted_datetimes_def)

lemma body_lines:
  "join nl (map (adjusted_line bt d) (transcript_lines c)) @ (if endsWith c nl then [nl] else [])
     = join nl (map (adjusted_line bt d) (split nl c))"
  using transcript_lines_cases[of c]
  by (auto simp: join_snoc)

lemma adjustTranscript_eq:
  "adjustTranscript c bt d =
     (case adjusted_datetimes bt d c of
        [] \<Rightarrow> Inl NoTimestamps
      | t # ts \<Rightarrow>
          Inr \<lparr>body = join nl (map (adjusted_line bt d) (split nl c)),
               firstTimestamp = t,
               lastTimestamp = last (t # ts),
               hasOutOfOrderTimestamps = has_decrease (t # ts)\<rparr>)"
  unfolding adjustTranscript_def Let_def foldl_adjust_line body_lines[symmetric]
  by (simp add: adjust_init_def datetimes_of_transcript_lines split: list.splits)

lemma has_decrease_iff:
  "has_decrease ts \<longleftrightarrow> (\<exists>i. Suc i < length ts \<and> datetime_less (ts ! Suc i) (ts ! i))"
proof (induction ts rule: has_decrease.induct)
  case (1 x y rest)
  have "(\<exists>i. Suc i < length (x # y # rest) \<and> datetime_less ((x # y # rest) ! Suc i) ((x # y # rest) ! i))
        \<longleftrightarrow> datetime_less y x \<or> (\<exists>i. Suc i < length (y # rest) \<and> datetime_less ((y # rest) ! Suc i) ((y # rest) ! i))"
    (is "?L \<longleftrightarrow> ?A \<or> ?R")
  proof
    assume ?L
    then obtain i where i: "Suc i < length (x # y # rest)"
      "datetime_less ((x # y # rest) ! Suc i) ((x # y # rest) ! i)" by blast
    show "?A \<or> ?R"
    proof (cases i)
      case 0
      with i show ?thesis by simp
    next
      case (Suc j)
      with i have "Suc j < length (y # rest) \<and> datetime_less ((y # rest) ! Suc j) ((y # rest) ! j)"
        by simp
      then show ?thesis by blast
    qed
  next
    assume "?A \<or> ?R"
    then show ?L
    proof
      assume ?A
      then have "Suc 0 < length (x # y # rest) \<and> datetime_less ((x # y # rest) ! Suc 0) ((x # y # rest) ! 0)"
        by simp
      then show ?L by blast
    next
      assume ?R
      then obtain j where "Suc j < length (y # rest)" "datetime_less ((y # rest) ! Suc j) ((y # rest) ! j)"
        by blast
      then have "Suc (Suc j) < length (x # y # rest)
                 \<and> datetime_less ((x # y # rest) ! Suc (Suc j)) ((x # y # rest) ! Suc j)"
        by simp
      then show ?L by blast
    qed
  qed
  with 1 show ?case by simp
qed simp_all

section \<open>Properties of adjustTranscript\<close>

text \<open>
  C6. \<^verbatim>\<open>adjustTranscript\<close> fails with \<^verbatim>\<open>NoTimestamps\<close> exactly when no line of the input
  carries a recognizable leading timestamp; when some line does, it returns an update
  whose first timestamp is the first adjusted datetime of the text and whose last
  timestamp is the last one, in file order.
\<close>

theorem C6_NoTimestamps_iff_no_timestamp_line:
  "(adjustTranscript c bt d = Inl NoTimestamps
      \<longleftrightarrow> (\<forall>l \<in> set (split nl c). \<not> has_leading_timestamp l))
   \<and> ((\<exists>l \<in> set (split nl c). has_leading_timestamp l) \<longrightarrow>
        (\<exists>u. adjustTranscript c bt d = Inr u
             \<and> firstTimestamp u = hd (adjusted_datetimes bt d c)
             \<and> lastTimestamp u = last (adjusted_datetimes bt d c)))"
proof -
  have e: "adjusted_datetimes bt d c = [] \<longleftrightarrow> (\<forall>l \<in> set (split nl c). \<not> has_leading_timestamp l)"
    by (simp add: adjusted_datetimes_def filter_empty_conv)
  show ?thesis
  proof (cases "adjusted_datetimes bt d c")
    case Nil
    then show ?thesis using e by (simp add: adjustTranscript_eq)
  next
    case (Cons t ts)
    then show ?thesis using e by (simp add: adjustTranscript_eq)
  qed
qed

theorem C6_NoTimestamps_witness:
  "filter has_leading_timestamp (split nl (''No timestamps here'' @ [nl])) = []
   \<and> adjustTranscript (''No timestamps here'' @ [nl]) example_time example_date = Inl NoTimestamps
   \<and> (\<exists>l \<in> set (split nl (''00:00:05 Later'' @ [nl] @ ''00:00:02 Earlier'' @ [nl])).
         has_leading_timestamp l)
   \<and> (\<exists>u. adjustTranscript (''00:00:05 Later'' @ [nl] @ ''00:00:02 Earlier'' @ [nl])
              example_time example_date = Inr u
          \<and> firstTimestamp u =
               \<lparr>dt_year = 2024, dt_month = 12, dt_day = 25,
                dt_hours = 18, dt_minutes = 1, dt_seconds = 17\<rparr>
          \<and> lastTimestamp u =
               \<lparr>dt_year = 2024, dt_month = 12, dt_day = 25,
                dt_hours = 18, dt_minutes = 1, dt_seconds = 14\<rparr>)"
proof -
  let ?c1 = "''No timestamps here'' @ [nl]"
  let ?c2 = "''00:00:05 Later'' @ [nl] @ ''00:00:02 Earlier'' @ [nl]"
  have a: "\<forall>l \<in> set (split nl ?c1). \<not> has_leading_timestamp l"
    by code_simp
  have b: "\<exists>l \<in> set (split nl ?c2). has_leading_timestamp l"
    by code_simp
  have ts: "adjusted_datetimes example_time example_date ?c2 =
      [\<lparr>dt_year = 2024, dt_month = 12, dt_day = 25, dt_hours = 18, dt_minutes = 1, dt_seconds = 17\<rparr>,
       \<lparr>dt_year = 2024, dt_month = 12, dt_day = 25, dt_hours = 18, dt_minutes = 1, dt_seconds = 14\<rparr>]"
    by code_simp
  have 1: "adjustTranscript ?c1 example_time example_date = Inl NoTimestamps"
    using C6_NoTimestamps_iff_no_timestamp_line[of ?c1 example_time example_date] a by blast
  have 2: "\<exists>u. adjustTranscript ?c2 example_time example_date = Inr u
          \<and> firstTimestamp u = hd (adjusted_datetimes example_time example_date ?c2)
          \<and> lastTimestamp u = last (adjusted_datetimes example_time example_date ?c2)"
    using C6_NoTimestamps_iff_no_timestamp_line[of ?c2 example_time example_date] b by blast
  have a': "filter has_leading_timestamp (split nl ?c1) = []"
    using a by (simp add: filter_empty_conv)
  show ?thesis
    using a' b 1 2 unfolding ts by simp
qed

text \<open>
  C7. The flag \<^verbatim>\<open>hasOutOfOrderTimestamps\<close> of the result is true exactly when some
  adjusted datetime is strictly less, in the order of (year, month, day, hours, minutes,
  seconds), than the adjusted datetime just before it; and once the flag of the loop is
  set, it stays set whatever lines follow.
\<close>

theorem C7_out_of_order_iff_strict_decrease:
  "(adjustTranscript c bt d = Inr u \<longrightarrow>
      (hasOutOfOrderTimestamps u \<longleftrightarrow>
         (\<exists>i. Suc i < length (adjusted_datetimes bt d c)
              \<and> datetime_less (adjusted_datetimes bt d c ! Suc i) (adjusted_datetimes bt d c ! i))))
   \<and> (hasOutOfOrder st \<longrightarrow> hasOutOfOrder (foldl (adjust_line bt d) st ls))"
proof (intro conjI impI)
  assume r: "adjustTranscript c bt d = Inr u"
  then obtain t ts where ts: "adjusted_datetimes bt d c = t # ts"
    by (cases "adjusted_datetimes bt d c") (simp_all add: adjustTranscript_eq)
  from r have "hasOutOfOrderTimestamps u = has_decrease (adjusted_datetimes bt d c)"
    by (auto simp: adjustTranscript_eq ts)
  then show "hasOutOfOrderTimestamps u \<longleftrightarrow>
      (\<exists>i. Suc i < length (adjusted_datetimes bt d c)
           \<and> datetime_less (adjusted_datetimes bt d c ! Suc i) (adjusted_datetimes bt d c ! i))"
    by (simp add: has_decrease_iff)
next
  assume "hasOutOfOrder st"
  then show "hasOutOfOrder (foldl (adjust_line bt d) st ls)"
    by (simp add: foldl_adjust_line)
qed

theorem C7_out_of_order_witness:
  "adjustTranscript (''00:00:05 Later'' @ [nl] @ ''00:00:02 Earlier'' @ [nl])
       example_time example_date
     = Inr \<lparr>body = ''18:01:17 Later'' @ [nl] @ ''18:01:14 Earlier'' @ [nl],
           firstTimestamp = \<lparr>dt_year = 2024, dt_month = 12, dt_day = 25,
                             dt_hours = 18, dt_minutes = 1, dt_seconds = 17\<rparr>,
           lastTimestamp = \<lparr>dt_year = 2024, dt_month = 12, dt_day = 25,
                            dt_hours = 18, dt_minutes = 1, dt_seconds = 14\<rparr>,
           hasOutOfOrderTimestamps = True\<rparr>
   \<and> (\<exists>i. Suc i < length (adjusted_datetimes example_time example_date
                             (''00:00:05 Later'' @ [nl] @ ''00:00:02 Earlier'' @ [nl]))
          \<and> datetime_less
               (adjusted_datetimes example_time example_date
                  (''00:00:05 Later'' @ [nl] @ ''00:00:02 Earlier'' @ [nl]) ! Suc i)
               (adjusted_datetimes example_time example_date
                  (''00:00:05 Later'' @ [nl] @ ''00:00:02 Earlier'' @ [nl]) ! i))
   \<and> hasOutOfOrder (adjust_init\<lparr>hasOutOfOrder := True\<rparr>)
   \<and> hasOutOfOrder
        (foldl (adjust_line example_time example_date) (adjust_init\<lparr>hasOutOfOrder := True\<rparr>)
           [''00:00:01 First'', ''00:00:03 Second''])"
proof -
  let ?c = "''00:00:05 Later'' @ [nl] @ ''00:00:02 Earlier'' @ [nl]"
  let ?u = "\<lparr>body = ''18:01:17 Later'' @ [nl] @ ''18:01:14 Earlier'' @ [nl],
           firstTimestamp = \<lparr>dt_year = 2024, dt_month = 12, dt_day = 25,
                             dt_hours = 18, dt_minutes = 1, dt_seconds = 17\<rparr>,
           lastTimestamp = \<lparr>dt_year = 2024, dt_month = 12, dt_day = 25,
                            dt_hours = 18, dt_minutes = 1, dt_seconds = 14\<rparr>,
           hasOutOfOrderTimestamps = True\<rparr>"
  have a: "adjustTranscript ?c example_time example_date = Inr ?u"
    by code_simp
  have b: "hasOutOfOrder (adjust_init\<lparr>hasOutOfOrder := True\<rparr>)"
    by simp
  note t = C7_out_of_order_iff_strict_decrease[of ?c example_time example_date ?u
      "adjust_init\<lparr>hasOutOfOrder := True\<rparr>" "[''00:00:01 First'', ''00:00:03 Second'']"]
  from t a have 1: "\<exists>i. Suc i < length (adjusted_datetimes example_time example_date ?c)
          \<and> datetime_less (adjusted_datetimes example_time example_date ?c ! Suc i)
               (adjusted_datetimes example_time example_date ?c ! i)"
    by simp
  from t b have 2: "hasOutOfOrder
        (foldl (adjust_line example_time example_date) (adjust_init\<lparr>hasOutOfOrder := True\<rparr>)
           [''00:00:01 First'', ''00:00:03 Second''])"
    by blast
  show ?thesis using a b 1 2 by blast
qed

lemma digit_char_not_nl:
  assumes "n < 10"
  shows "digit_char n \<noteq> nl" and "nl \<noteq> digit_char n"
proof -
  from assms have "n \<in> {0, 1, 2, 3, 4, 5, 6, 7, 8, 9}" by auto
  then show "digit_char n \<noteq> nl" by (auto simp: digit_char_def)
  then show "nl \<noteq> digit_char n" by simp
qed

lemma digits_of_nat_no_nl: "nl \<notin> set (digits_of_nat n)"
proof (induction n rule: digits_of_nat.induct)
  case (1 n)
  show ?case
  proof (cases "n < 10")
    case True
    then show ?thesis
      by (simp add: digits_of_nat.simps[of n] digit_char_not_nl)
  next
    case False
    have "n mod 10 < 10" by simp
    with False 1 show ?thesis
      by (simp add: digits_of_nat.simps[of n] digit_char_not_nl)
  qed
qed

lemma digits_of_nat_not_Nil: "digits_of_nat n \<noteq> []"
  by (simp add: digits_of_nat.simps[of n])

lemma formatTime_no_nl: "nl \<notin> set (formatTime t)"
  by (simp add: formatTime_def padStart2_def String_def digits_of_nat_no_nl)

lemma formatTime_not_Nil: "formatTime t \<noteq> []"
  by (simp add: formatTime_def)

lemma adjusted_line_no_nl: "nl \<notin> set l \<Longrightarrow> nl \<notin> set (adjusted_line bt d l)"
  by (auto simp: adjusted_line_def formatTime_no_nl dest: in_set_dropD)

lemma adjusted_line_Nil_iff: "adjusted_line bt d l = [] \<longleftrightarrow> l = []"
  by (auto simp: adjusted_line_def formatTime_not_Nil)

lemma trailing_newlines_snoc_nl: "trailing_newlines (s @ [nl]) = Suc (trailing_newlines s)"
  by (simp add: trailing_newlines_def)

lemma trailing_newlines_nlfree: "nl \<notin> set l \<Longrightarrow> l \<noteq> [] \<Longrightarrow> trailing_newlines (s @ l) = 0"
proof -
  assume a: "nl \<notin> set l" "l \<noteq> []"
  then obtain x xs where r: "rev l = x # xs" by (cases "rev l") simp_all
  then have "x \<in> set l" by (metis list.set_intros(1) set_rev)
  with a have "x \<noteq> nl" by auto
  then show ?thesis by (simp add: trailing_newlines_def r)
qed

lemma trailing_newlines_nlfree0: "nl \<notin> set l \<Longrightarrow> trailing_newlines l = 0"
  using trailing_newlines_nlfree[of l "[]"] by (cases "l = []") (simp_all add: trailing_newlines_def)

lemma trailing_newlines_join_map:
  assumes "\<forall>l \<in> set ls. nl \<notin> set l"
    and "\<And>l. nl \<notin> set l \<Longrightarrow> nl \<notin> set (f l)"
    and "\<And>l. f l = [] \<longleftrightarrow> l = []"
  shows "trailing_newlines (join nl (map f ls)) = trailing_newlines (join nl ls)"
  using assms(1)
proof (induction ls rule: rev_induct)
  case Nil
  then show ?case by simp
next
  case (snoc l xs)
  have l: "nl \<notin> set l" and fl: "nl \<notin> set (f l)" using snoc.prems assms(2) by simp_all
  show ?case
  proof (cases "xs = []")
    case True
    then show ?thesis using l fl by (simp add: trailing_newlines_nlfree0)
  next
    case False
    have ih: "trailing_newlines (join nl (map f xs)) = trailing_newlines (join nl xs)"
      using snoc by simp
    show ?thesis
    proof (cases "l = []")
      case True
      then have "f l = []" using assms(3) by simp
      with True False ih show ?thesis
        by (simp add: join_snoc trailing_newlines_snoc_nl)
    next
      case nonempty: False
      then have "f l \<noteq> []" using assms(3) by simp
      have 1: "trailing_newlines (join nl xs @ nl # l) = 0"
        using trailing_newlines_nlfree[OF l nonempty, of "join nl xs @ [nl]"] by simp
      have 2: "trailing_newlines (join nl (map f xs) @ nl # f l) = 0"
        using trailing_newlines_nlfree[OF fl \<open>f l \<noteq> []\<close>, of "join nl (map f xs) @ [nl]"] by simp
      show ?thesis using False 1 2 by (simp add: join_snoc)
    qed
  qed
qed

lemma endsWith_trailing_newlines: "endsWith s nl \<longleftrightarrow> 0 < trailing_newlines s"
  by (cases s rule: rev_cases) (auto simp: endsWith_def trailing_newlines_def)

text \<open>
  C3, as the program has it. Whenever \<^verbatim>\<open>adjustTranscript\<close> returns, the body ends with
  exactly as many line feeds as the input: with none when the input ends with none, and
  with at least one when the input ends with one. An input that ends with exactly one
  line feed gives a body that ends with exactly one.
\<close>

theorem C3_trailing_newlines_preserved:
  assumes "adjustTranscript c bt d = Inr u"
  shows "trailing_newlines (body u) = trailing_newlines c
         \<and> (endsWith (body u) nl \<longleftrightarrow> endsWith c nl)"
proof -
  from assms have b: "body u = join nl (map (adjusted_line bt d) (split nl c))"
    by (auto simp: adjustTranscript_eq split: list.splits)
  have "trailing_newlines (join nl (map (adjusted_line bt d) (split nl c)))
          = trailing_newlines (join nl (split nl c))"
    by (rule trailing_newlines_join_map)
      (auto simp: adjusted_line_no_nl adjusted_line_Nil_iff dest: split_no_sep)
  then have "trailing_newlines (body u) = trailing_newlines c"
    by (simp add: b join_split)
  then show ?thesis by (simp add: endsWith_trailing_newlines)
qed

theorem C3_trailing_newlines_witness:
  "adjustTranscript (''00:00:01 Foo'' @ [nl]) example_time example_date
     = Inr \<lparr>body = ''18:01:13 Foo'' @ [nl],
           firstTimestamp = \<lparr>dt_year = 2024, dt_month = 12, dt_day = 25,
                             dt_hours = 18, dt_minutes = 1, dt_seconds = 13\<rparr>,
           lastTimestamp = \<lparr>dt_year = 2024, dt_month = 12, dt_day = 25,
                            dt_hours = 18, dt_minutes = 1, dt_seconds = 13\<rparr>,
           hasOutOfOrderTimestamps = False\<rparr>
   \<and> trailing_newlines (''18:01:13 Foo'' @ [nl]) = trailing_newlines (''00:00:01 Foo'' @ [nl])
   \<and> trailing_newlines (''00:00:01 Foo'' @ [nl]) = 1"
proof -
  let ?u = "\<lparr>body = ''18:01:13 Foo'' @ [nl],
           firstTimestamp = \<lparr>dt_year = 2024, dt_month = 12, dt_day = 25,
                             dt_hours = 18, dt_minutes = 1, dt_seconds = 13\<rparr>,
           lastTimestamp = \<lparr>dt_year = 2024, dt_month = 12, dt_day = 25,
                            dt_hours = 18, dt_minutes = 1, dt_seconds = 13\<rparr>,
           hasOutOfOrderTimestamps = False\<rparr>"
  have a: "adjustTranscript (''00:00:01 Foo'' @ [nl]) example_time example_date = Inr ?u"
    by code_simp
  have b: "trailing_newlines (''00:00:01 Foo'' @ [nl]) = 1"
    by (simp add: trailing_newlines_def)
  show ?thesis
    using a b C3_trailing_newlines_preserved[OF a] by simp
qed

text \<open>
  C3 as stated fails: an input that ends with two line feeds gives a body that ends with
  two line feeds, not with exactly one.
\<close>

theorem C3_exactly_one_newline_counterexample:
  "endsWith (''00:00:01 Foo'' @ [nl, nl]) nl
   \<and> map_sum id body (adjustTranscript (''00:00:01 Foo'' @ [nl, nl]) example_time example_date)
       = Inr (''18:01:13 Foo'' @ [nl, nl])
   \<and> trailing_newlines (''18:01:13 Foo'' @ [nl, nl]) = 2"
proof -
  have a: "adjustTranscript (''00:00:01 Foo'' @ [nl, nl]) example_time example_date
     = Inr \<lparr>body = ''18:01:13 Foo'' @ [nl, nl],
           firstTimestamp = \<lparr>dt_year = 2024, dt_month = 12, dt_day = 25,
                             dt_hours = 18, dt_minutes = 1, dt_seconds = 13\<rparr>,
           lastTimestamp = \<lparr>dt_year = 2024, dt_month = 12, dt_day = 25,
                            dt_hours = 18, dt_minutes = 1, dt_seconds = 13\<rparr>,
           hasOutOfOrderTimestamps = False\<rparr>"
    by code_simp
  show ?thesis
    unfolding a by (simp add: endsWith_def trailing_newlines_def)
qed

section \<open>The order of sort keys\<close>

text \<open>
  C1, as the program has it. \<^verbatim>\<open>compareSortKeys\<close> is negative exactly when the first
  key is before the second in the order \<open>key_before\<close>, positive exactly when the second
  is before the first: a key without a date is before every key with a date, two dated
  keys are ordered by (year, month, day) and then start time, two keys without a date by
  start time only.
\<close>

theorem C1_compareSortKeys_order:
  "(compareSortKeys a b < 0 \<longleftrightarrow> key_before a b)
   \<and> (compareSortKeys a b > 0 \<longleftrightarrow> key_before b a)"
  by (auto simp: compareSortKeys_def key_before_def Let_def split: option.splits)

text \<open>
  C1 as stated fails: a key with a date compares greater than a key without one, and the
  stable sort puts the file without a date first.
\<close>

theorem C1_dated_before_absent_counterexample:
  "compareSortKeys
     \<lparr>date = Some \<lparr>year = 2025, month = 1, day = 27\<rparr>,
      startHours = 6, startMinutes = 19, startSeconds = 1\<rparr>
     \<lparr>date = None, startHours = 11, startMinutes = 22, startSeconds = 56\<rparr> = 1
   \<and> getSortKey ''2025/01/27/061901-111901.txt''
       = Inr \<lparr>date = Some \<lparr>year = 2025, month = 1, day = 27\<rparr>,
              startHours = 6, startMinutes = 19, startSeconds = 1\<rparr>
   \<and> getSortKey ''inbox/112256-162256.txt''
       = Inr \<lparr>date = None, startHours = 11, startMinutes = 22, startSeconds = 56\<rparr>
   \<and> map path
         (sort_descriptors
            [\<lparr>path = ''2025/01/27/061901-111901.txt'',
              key = \<lparr>date = Some \<lparr>year = 2025, month = 1, day = 27\<rparr>,
                     startHours = 6, startMinutes = 19, startSeconds = 1\<rparr>\<rparr>,
             \<lparr>path = ''inbox/112256-162256.txt'',
              key = \<lparr>date = None, startHours = 11, startMinutes = 22, startSeconds = 56\<rparr>\<rparr>])
       = [''inbox/112256-162256.txt'', ''2025/01/27/061901-111901.txt'']"
  by code_simp

section \<open>The sort of the descriptors\<close>

text \<open>
  The comparator is a total preorder whose ties are exactly the equal keys, and the
  modelled sort returns the one list that a stable sort can return for it: sorted, with
  the same elements, and with the descriptors of each key in their original order.
\<close>

lemma compareSortKeys_refl: "compareSortKeys a a = 0"
  by (simp add: compareSortKeys_def Let_def split: option.splits)

lemma compareSortKeys_total: "compareSortKeys a b \<le> 0 \<or> compareSortKeys b a \<le> 0"
  by (auto simp: compareSortKeys_def Let_def split: option.splits)

lemma compareSortKeys_le_iff: "compareSortKeys a b \<le> 0 \<longleftrightarrow> \<not> key_before b a"
  by (auto simp: compareSortKeys_def key_before_def Let_def split: option.splits)

lemma lex_less_trans:
  "length xs = length ys \<Longrightarrow> length ys = length zs \<Longrightarrow>
   \<not> lex_less ys xs \<Longrightarrow> \<not> lex_less zs ys \<Longrightarrow> \<not> lex_less zs xs"
proof (induction xs arbitrary: ys zs)
  case Nil
  then show ?case by simp
next
  case (Cons x xs)
  from Cons.prems(1) obtain y ys' where ys: "ys = y # ys'" by (cases ys) simp_all
  from Cons.prems(2) ys obtain z zs' where zs: "zs = z # zs'" by (cases zs) simp_all
  from Cons.prems(3) have xy: "x \<le> y" "y = x \<Longrightarrow> \<not> lex_less ys' xs"
    unfolding ys by simp_all
  from Cons.prems(4) have yz: "y \<le> z" "z = y \<Longrightarrow> \<not> lex_less zs' ys'"
    unfolding ys zs by simp_all
  have len: "length xs = length ys'" "length ys' = length zs'"
    using Cons.prems(1,2) ys zs by simp_all
  have "\<not> z < x" using xy(1) yz(1) by simp
  moreover have "\<not> lex_less zs' xs" if "z = x"
  proof -
    from that xy(1) yz(1) have e: "y = x" "z = y" by simp_all
    from Cons.IH[OF len xy(2)[OF e(1)] yz(2)[OF e(2)]] show ?thesis .
  qed
  ultimately show ?case unfolding zs by auto
qed

lemma compareSortKeys_trans:
  assumes "compareSortKeys a b \<le> 0" and "compareSortKeys b c \<le> 0"
  shows "compareSortKeys a c \<le> 0"
proof -
  from assms have ab: "\<not> key_before b a" and bc: "\<not> key_before c b"
    by (simp_all add: compareSortKeys_le_iff)
  have "\<not> key_before c a"
  proof (cases "date a")
    case None
    then show ?thesis
      using ab bc
      lex_less_trans[of "[startHours a, startMinutes a, startSeconds a]"
          "[startHours b, startMinutes b, startSeconds b]"
          "[startHours c, startMinutes c, startSeconds c]"]
      by (cases "date b"; cases "date c") (simp_all add: key_before_def)
  next
    case (Some da)
    show ?thesis
    proof (cases "date b")
      case None
      with Some ab show ?thesis by (simp add: key_before_def)
    next
      case sb: (Some db)
      show ?thesis
      proof (cases "date c")
        case None
        with sb bc show ?thesis by (simp add: key_before_def)
      next
        case sc: (Some dc)
        show ?thesis
          using ab bc Some sb sc
            lex_less_trans[of
              "[year da, month da, day da, startHours a, startMinutes a, startSeconds a]"
              "[year db, month db, day db, startHours b, startMinutes b, startSeconds b]"
              "[year dc, month dc, day dc, startHours c, startMinutes c, startSeconds c]"]
          unfolding key_before_def by simp
      qed
    qed
  qed
  then show ?thesis by (simp add: compareSortKeys_le_iff)
qed

lemma set_insert_descriptor: "set (insert_descriptor x ys) = insert x (set ys)"
  by (induction ys) auto

lemma length_insert_descriptor: "length (insert_descriptor x ys) = Suc (length ys)"
  by (induction ys) auto


lemma length_sort_descriptors: "length (sort_descriptors ds) = length ds"
  by (induction ds) (auto simp: sort_descriptors_def length_insert_descriptor)

lemma sorted_insert_descriptor:
  "sorted_wrt (\<lambda>x y. compareSortKeys (key x) (key y) \<le> 0) ys \<Longrightarrow>
   sorted_wrt (\<lambda>x y. compareSortKeys (key x) (key y) \<le> 0) (insert_descriptor x ys)"
proof (induction ys)
  case Nil
  then show ?case by simp
next
  case (Cons y ys)
  show ?case
  proof (cases "compareSortKeys (key x) (key y) \<le> 0")
    case True
    with Cons.prems show ?thesis
      by (auto intro: compareSortKeys_trans)
  next
    case False
    then have "compareSortKeys (key y) (key x) \<le> 0"
      using compareSortKeys_total[of "key x" "key y"] by simp
    with False Cons show ?thesis
      by (auto simp: set_insert_descriptor)
  qed
qed

lemma sorted_sort_descriptors:
  "sorted_wrt (\<lambda>x y. compareSortKeys (key x) (key y) \<le> 0) (sort_descriptors ds)"
  by (induction ds) (auto simp: sort_descriptors_def sorted_insert_descriptor)

lemma filter_insert_descriptor:
  "filter (\<lambda>d. key d = k) (insert_descriptor x ys) =
     (if key x = k then x # filter (\<lambda>d. key d = k) ys else filter (\<lambda>d. key d = k) ys)"
  by (induction ys) (auto simp: compareSortKeys_refl)

lemma stable_sort_descriptors:
  "filter (\<lambda>d. key d = k) (sort_descriptors ds) = filter (\<lambda>d. key d = k) ds"
  by (induction ds) (auto simp: sort_descriptors_def filter_insert_descriptor)

section \<open>Unrecognized file names\<close>

lemma length6_conv: "length s = 6 \<longleftrightarrow> (\<exists>a b c d e f. s = [a, b, c, d, e, f])"
  by (auto simp: numeral_eq_Suc length_Suc_conv)

lemma length3_conv: "length s = 3 \<longleftrightarrow> (\<exists>a b c. s = [a, b, c])"
  by (auto simp: numeral_eq_Suc length_Suc_conv)

lemma length2_conv: "length s = 2 \<longleftrightarrow> (\<exists>a b. s = [a, b])"
  by (auto simp: numeral_eq_Suc length_Suc_conv)

lemma parseTimeDigits_iff:
  assumes "digits_exactly 6 v"
  shows "(\<exists>t. parseTimeDigits v = Some t) \<longleftrightarrow> time_digits_in_range v"
proof -
  from assms obtain a b c d e f where v: "v = [a, b, c, d, e, f]"
    unfolding digits_exactly_def length6_conv by blast
  from assms have dig: "is_digit a" "is_digit b" "is_digit c" "is_digit d" "is_digit e" "is_digit f"
    unfolding v digits_exactly_def all_digits_def by simp_all
  show ?thesis
    using assms dig unfolding v
    by (auto simp: parseTimeDigits_def time_digits_in_range_def parseInt_two Let_def)
qed

lemma getSortKey_recognised:
  "(recognised p \<longrightarrow> (\<exists>k. getSortKey p = Inr k))
   \<and> (\<not> recognised p \<longrightarrow> getSortKey p = Inl (UnrecognizedFilename p))"
proof -
  define name where "name = remove_extension (basename p)"
  show ?thesis
  proof (cases "looksLikeFlatFormat name")
    case True
    then obtain a b c where parts: "split (CHR ''_'') name = [a, b, c]"
      and d: "digits_exactly 8 a" "digits_exactly 6 b"
      unfolding looksLikeFlatFormat_def Let_def length3_conv
      by (auto split: if_splits)
    have sf: "start_field name = b"
      using True by (simp add: start_field_def parts)
    show ?thesis
      using True parseTimeDigits_iff[OF d(2)] d(1)
      by (auto simp: getSortKey_def recognised_def name_def[symmetric] sf parseFlat_def parts
          DATE_COMPACT_REGEX_exec_def Let_def split: option.splits)
  next
    case False
    show ?thesis
    proof (cases "looksLikeNestedFormat name")
      case nested: True
      then obtain a b where parts: "split (CHR ''-'') name = [a, b]"
        and d: "digits_exactly 6 a"
        unfolding looksLikeNestedFormat_def Let_def length2_conv
        by (auto split: if_splits)
      have sf: "start_field name = a"
        using False by (simp add: start_field_def parts)
      show ?thesis
        using False nested parseTimeDigits_iff[OF d]
        by (auto simp: getSortKey_def recognised_def name_def[symmetric] sf parseNested_def parts
            Let_def split: option.splits)
    next
      case neither: False
      with False show ?thesis
        by (simp add: getSortKey_def recognised_def name_def[symmetric] Let_def)
    qed
  qed
qed

lemma make_descriptors_unrecognised:
  "filter (\<lambda>p. \<not> recognised p) ps = q # qs \<Longrightarrow>
     make_descriptors ps = Inl (UnrecognizedFilename q)"
proof (induction ps)
  case Nil
  then show ?case by simp
next
  case (Cons p ps)
  show ?case
  proof (cases "recognised p")
    case True
    then obtain k where "getSortKey p = Inr k" using getSortKey_recognised by blast
    moreover have "make_descriptors ps = Inl (UnrecognizedFilename q)"
      using Cons True by simp
    ultimately show ?thesis by simp
  next
    case False
    then have "getSortKey p = Inl (UnrecognizedFilename p)" using getSortKey_recognised by blast
    moreover have "q = p" using Cons.prems False by simp
    ultimately show ?thesis by simp
  qed
qed

text \<open>
  C9, as the program has it. Once the patterns are expanded and the size guard has passed,
  a collected file whose name is not recognized (neither the flat nor the nested shape,
  or a start-time field out of range) makes \<^verbatim>\<open>executeMerge\<close> fail with
  \<^verbatim>\<open>UnrecognizedFilename\<close> naming the first such path in collection order, and the
  file system is as it was: nothing written, nothing deleted.
\<close>

theorem C9_unrecognized_filename_aborts:
  assumes "expand_patterns pf (patterns request) = Inr collected"
    and "check_sizes pf fs collected = None"
    and "filter (\<lambda>p. \<not> recognised p) collected = q # qs"
  shows "executeMerge pf fs request = (Inl (UnrecognizedFilename q), fs)"
  using assms make_descriptors_unrecognised[OF assms(3)]
  by (simp add: executeMerge_def)

theorem C9_unrecognized_filename_witness:
  "expand_patterns
       (plain_platform [(''/d/2025/01/27/*.txt'',
          [''/d/2025/01/27/112256-162256.txt'', ''/d/2025/01/27/notes.txt''])])
       (patterns \<lparr>patterns = [''/d/2025/01/27/*.txt''], output = None, noDelete = False\<rparr>)
     = Inr [''/d/2025/01/27/112256-162256.txt'', ''/d/2025/01/27/notes.txt'']
   \<and> check_sizes
         (plain_platform [(''/d/2025/01/27/*.txt'',
            [''/d/2025/01/27/112256-162256.txt'', ''/d/2025/01/27/notes.txt''])])
         fs_with_notes [''/d/2025/01/27/112256-162256.txt'', ''/d/2025/01/27/notes.txt''] = None
   \<and> filter (\<lambda>p. \<not> recognised p)
         [''/d/2025/01/27/112256-162256.txt'', ''/d/2025/01/27/notes.txt'']
       = [''/d/2025/01/27/notes.txt'']
   \<and> executeMerge
         (plain_platform [(''/d/2025/01/27/*.txt'',
            [''/d/2025/01/27/112256-162256.txt'', ''/d/2025/01/27/notes.txt''])])
         fs_with_notes
         \<lparr>patterns = [''/d/2025/01/27/*.txt''], output = None, noDelete = False\<rparr>
       = (Inl (UnrecognizedFilename ''/d/2025/01/27/notes.txt''), fs_with_notes)"
proof -
  let ?pf = "plain_platform [(''/d/2025/01/27/*.txt'',
          [''/d/2025/01/27/112256-162256.txt'', ''/d/2025/01/27/notes.txt''])]"
  let ?req = "\<lparr>patterns = [''/d/2025/01/27/*.txt''], output = None, noDelete = False\<rparr>"
  let ?collected = "[''/d/2025/01/27/112256-162256.txt'', ''/d/2025/01/27/notes.txt'']"
  have a: "expand_patterns ?pf (patterns ?req) = Inr ?collected"
    by code_simp
  have b: "check_sizes ?pf fs_with_notes ?collected = None"
    by code_simp
  have c: "filter (\<lambda>p. \<not> recognised p) ?collected = [''/d/2025/01/27/notes.txt'']"
    by code_simp
  show ?thesis
    using a b c C9_unrecognized_filename_aborts[OF a b c] by blast
qed

text \<open>
  C9 as stated fails: a name whose end-time field is out of range (99:61:61) is a
  recognized transcript name, and the merge of that file succeeds.
\<close>

theorem C9_field_out_of_range_counterexample:
  "getSortKey ''/d/2025/01/27/112256-996161.txt''
     = Inr \<lparr>date = Some \<lparr>year = 2025, month = 1, day = 27\<rparr>,
            startHours = 11, startMinutes = 22, startSeconds = 56\<rparr>
   \<and> fst (executeMerge (literal_platform [''/d/2025/01/27/112256-996161.txt'']) fs_bad_end_time
          \<lparr>patterns = [''/d/2025/01/27/112256-996161.txt''], output = None, noDelete = True\<rparr>)
       = Inr \<lparr>files = [''/d/2025/01/27/112256-996161.txt''],
              outputPath = ''/d/2025/01/27/2025-01-27.txt''\<rparr>"
  by code_simp

section \<open>The output path\<close>

lemma DateOnly_fields_eq:
  "(year a \<noteq> year b \<or> month a \<noteq> month b \<or> day a \<noteq> day b) \<longleftrightarrow> a \<noteq> (b :: DateOnly)"
  by (cases a, cases b) auto

text \<open>The date of a directory, as the program reads it and as the specification says it.\<close>

lemma length10_conv:
  "length s = 10 \<longleftrightarrow> (\<exists>a b c d e f g h i j. s = [a, b, c, d, e, f, g, h, i, j])"
  by (auto simp: numeral_eq_Suc length_Suc_conv)

lemma length4_conv: "length s = 4 \<longleftrightarrow> (\<exists>a b c d. s = [a, b, c, d])"
  by (auto simp: numeral_eq_Suc length_Suc_conv)

lemma parseInt_four:
  "is_digit a \<Longrightarrow> is_digit b \<Longrightarrow> is_digit c \<Longrightarrow> is_digit d \<Longrightarrow>
     parseInt [a, b, c, d] = four_digits a b c d"
  by (simp add: parseInt_def four_digits_def two_digits_def)

lemma dashed_date_exec_eq:
  "(case dashed_date_exec s of
      Some (g1, g2, g3) \<Rightarrow> Some \<lparr>year = parseInt g1, month = parseInt g2, day = parseInt g3\<rparr>
    | None \<Rightarrow> None) = dashed_directory_date s"
proof (cases "length s = 10")
  case True
  then obtain a b c d e f g h i j where s: "s = [a, b, c, d, e, f, g, h, i, j]"
    unfolding length10_conv by blast
  show ?thesis
    unfolding s
    by (auto simp: dashed_date_exec_def all_digits_def parseInt_four parseInt_two)
next
  case False
  then have "dashed_date_exec s = None" by (simp add: dashed_date_exec_def)
  moreover have "dashed_directory_date s = None"
    using False by (cases s rule: dashed_directory_date.cases) simp_all
  ultimately show ?thesis by simp
qed

lemma digits_exactly_2: "digits_exactly 2 s \<longleftrightarrow> (\<exists>a b. s = [a, b] \<and> is_digit a \<and> is_digit b)"
  by (auto simp: digits_exactly_def all_digits_def length2_conv)

lemma digits_exactly_4:
  "digits_exactly 4 s \<longleftrightarrow>
     (\<exists>a b c d. s = [a, b, c, d] \<and> is_digit a \<and> is_digit b \<and> is_digit c \<and> is_digit d)"
  by (auto simp: digits_exactly_def all_digits_def length4_conv)

lemma last_three_nth:
  "(xs @ [c, b, a]) ! (length (xs @ [c, b, a]) - 1) = a"
  "(xs @ [c, b, a]) ! (length (xs @ [c, b, a]) - 2) = b"
  "(xs @ [c, b, a]) ! (length (xs @ [c, b, a]) - 3) = c"
  by (simp_all add: nth_append)

lemma nested_date_of_parts:
  "(if digits_exactly 4 yearPart \<and> digits_exactly 2 monthPart \<and> digits_exactly 2 dayPart
    then (if parseInt monthPart \<ge> 1 \<and> parseInt monthPart \<le> 12
             \<and> parseInt dayPart \<ge> 1 \<and> parseInt dayPart \<le> 31
          then Some \<lparr>year = parseInt yearPart, month = parseInt monthPart, day = parseInt dayPart\<rparr>
          else None)
    else None)
   = nested_directory_date (xs @ [yearPart, monthPart, dayPart])"
proof (cases "digits_exactly 4 yearPart \<and> digits_exactly 2 monthPart \<and> digits_exactly 2 dayPart")
  case True
  then obtain y1 y2 y3 y4 m1 m2 d1 d2 where
    shapes: "yearPart = [y1, y2, y3, y4]" "monthPart = [m1, m2]" "dayPart = [d1, d2]"
    and dig: "is_digit y1" "is_digit y2" "is_digit y3" "is_digit y4"
      "is_digit m1" "is_digit m2" "is_digit d1" "is_digit d2"
    unfolding digits_exactly_2 digits_exactly_4 by blast
  show ?thesis
    using True dig unfolding shapes
    by (simp add: nested_directory_date_def parseInt_four parseInt_two)
next
  case False
  then have "date_of_segments yearPart monthPart dayPart = None"
    unfolding digits_exactly_def all_digits_def
    by (cases "(yearPart, monthPart, dayPart)" rule: date_of_segments.cases) auto
  then have "nested_directory_date (xs @ [yearPart, monthPart, dayPart]) = None"
    by (simp add: nested_directory_date_def)
  with False show ?thesis by simp
qed

lemma extractDateFromPath_eq:
  "extractDateFromPath filepath = map_option snd (day_directory filepath)"
proof -
  define dir where "dir = dirname filepath"
  define parts where "parts = split slash dir"
  have nested: "(if length parts \<ge> 3 then
          (let dayPart = parts ! (length parts - 1);
               monthPart = parts ! (length parts - 2);
               yearPart = parts ! (length parts - 3)
           in if digits_exactly 4 yearPart \<and> digits_exactly 2 monthPart
                 \<and> digits_exactly 2 dayPart then
                (let year = parseInt yearPart;
                     month = parseInt monthPart;
                     day = parseInt dayPart
                 in if month \<ge> 1 \<and> month \<le> 12 \<and> day \<ge> 1 \<and> day \<le> 31
                    then Some \<lparr>year = year, month = month, day = day\<rparr>
                    else None)
              else None)
        else None) = nested_directory_date parts"
  proof (cases "length parts \<ge> 3")
    case True
    then obtain a b c rest where r: "rev parts = a # b # c # rest"
      by (cases "rev parts"; cases "tl (rev parts)"; cases "tl (tl (rev parts))")
        (auto simp: rev_swap[symmetric] dest: arg_cong[where f = length])
    then have p: "parts = rev rest @ [c, b, a]"
      by (simp add: rev_swap[symmetric])
    show ?thesis
      unfolding p nested_date_of_parts[of c b a "rev rest", symmetric]
      by (simp add: Let_def nth_append)
  next
    case False
    then have "length (rev parts) < 3" by simp
    then have "nested_directory_date parts = None"
      unfolding nested_directory_date_def
      by (cases "rev parts"; cases "tl (rev parts)"; cases "tl (tl (rev parts))") auto
    with False show ?thesis by simp
  qed
  show ?thesis
    unfolding extractDateFromPath_def day_directory_def Let_def dir_def[symmetric]
      parts_def[symmetric] nested[unfolded Let_def] dashed_date_exec_eq[symmetric]
    by (auto split: option.splits prod.splits)
qed

lemma extractNestedDayDirectory_eq: "extractNestedDayDirectory filepath = day_directory filepath"
  by (auto simp: extractNestedDayDirectory_def extractDateFromPath_eq day_directory_def Let_def
      split: option.splits)


text \<open>The name of the date, as the program writes it and as \<^verbatim>\<open>YYYY-MM-DD\<close>.\<close>

lemma decimal_digits_four:
  "decimal_digits 4 n =
     [digit_char (n div 10 div 10 div 10 mod 10), digit_char (n div 10 div 10 mod 10),
      digit_char (n div 10 mod 10), digit_char (n mod 10)]"
proof -
  have four: "(4::nat) = Suc (Suc (Suc (Suc 0)))" by simp
  show ?thesis unfolding four decimal_digits.simps by simp
qed

lemma decimal_digits_two:
  "decimal_digits 2 n = [digit_char (n div 10 mod 10), digit_char (n mod 10)]"
proof -
  have two: "(2::nat) = Suc (Suc 0)" by simp
  show ?thesis unfolding two decimal_digits.simps by simp
qed

lemma digits_of_nat_four:
  assumes "1000 \<le> n" "n \<le> 9999"
  shows "digits_of_nat n = decimal_digits 4 n"
proof -
  have a1: "\<not> n < 10" using assms by linarith
  have a2: "\<not> n div 10 < 10" using assms by linarith
  have a3: "\<not> n div 10 div 10 < 10" using assms by linarith
  have a4: "n div 10 div 10 div 10 < 10" using assms by linarith
  have 1: "digits_of_nat n = digits_of_nat (n div 10) @ [digit_char (n mod 10)]"
    using a1 by (subst digits_of_nat.simps) simp
  have 2: "digits_of_nat (n div 10) = digits_of_nat (n div 10 div 10) @ [digit_char (n div 10 mod 10)]"
    using a2 by (subst digits_of_nat.simps) simp
  have 3: "digits_of_nat (n div 10 div 10)
             = digits_of_nat (n div 10 div 10 div 10) @ [digit_char (n div 10 div 10 mod 10)]"
    using a3 by (subst digits_of_nat.simps) simp
  have 4: "digits_of_nat (n div 10 div 10 div 10) = [digit_char (n div 10 div 10 div 10)]"
    using a4 by (subst digits_of_nat.simps) simp
  have 5: "n div 10 div 10 div 10 mod 10 = n div 10 div 10 div 10"
    using a4 by simp
  show ?thesis
    unfolding 1 2 3 4 decimal_digits_four 5 by simp
qed

lemma padStart2_digits_of_nat:
  assumes "n \<le> 99"
  shows "padStart2 (digits_of_nat n) = decimal_digits 2 n"
proof (cases "n < 10")
  case True
  then have 1: "digits_of_nat n = [digit_char n]"
    by (subst digits_of_nat.simps) simp
  have 2: "digit_char 0 = CHR ''0''" by (simp add: digit_char_def)
  show ?thesis
    unfolding 1 decimal_digits_two using True by (simp add: padStart2_def 2)
next
  case False
  have a: "n div 10 < 10" using assms by linarith
  have 1: "digits_of_nat n = digits_of_nat (n div 10) @ [digit_char (n mod 10)]"
    using False by (subst digits_of_nat.simps) simp
  have 2: "digits_of_nat (n div 10) = [digit_char (n div 10)]"
    using a by (subst digits_of_nat.simps) simp
  show ?thesis
    unfolding 1 2 decimal_digits_two using a by (simp add: padStart2_def)
qed

lemma formatDateDashed_four_digit:
  assumes "four_digit_date d"
  shows "formatDateDashed d = date_YYYY_MM_DD d"
proof -
  from assms have y: "1000 \<le> nat (year d)" "nat (year d) \<le> 9999"
    and m: "nat (month d) \<le> 99" and dd: "nat (day d) \<le> 99"
    and nn: "\<not> year d < 0" "\<not> month d < 0" "\<not> day d < 0"
    by (auto simp: four_digit_date_def)
  show ?thesis
    unfolding formatDateDashed_def date_YYYY_MM_DD_def String_def
    using nn by (simp add: digits_of_nat_four[OF y] padStart2_digits_of_nat[OF m]
        padStart2_digits_of_nat[OF dd])
qed

text \<open>The two loops of \<^verbatim>\<open>determineOutputPath\<close>.\<close>

lemma detect_loop_Some:
  "detect_loop (Some c) ps =
     (if list_all (\<lambda>q. day_directory q = Some c) ps then Some c else None)"
proof (induction ps)
  case Nil
  then show ?case by simp
next
  case (Cons p ps)
  show ?case
  proof (cases "day_directory p")
    case None
    then show ?thesis by (simp add: extractNestedDayDirectory_eq)
  next
    case (Some info)
    have "(fst c \<noteq> fst info \<or> year (snd c) \<noteq> year (snd info)
            \<or> month (snd c) \<noteq> month (snd info) \<or> day (snd c) \<noteq> day (snd info))
          \<longleftrightarrow> info \<noteq> c"
      using DateOnly_fields_eq[of "snd c" "snd info"] by (cases c, cases info) auto
    with Some Cons show ?thesis by (simp add: extractNestedDayDirectory_eq)
  qed
qed

lemma detectCommonNestedDirectory_eq:
  "detectCommonNestedDirectory ordered = common_day_directory ordered"
  by (cases ordered)
    (simp_all add: detectCommonNestedDirectory_def common_day_directory_def detect_loop_Some
      extractNestedDayDirectory_eq split: option.splits)

lemma dates_present_simps:
  "dates_present [] = []"
  "date (key d) = None \<Longrightarrow> dates_present (d # ds) = dates_present ds"
  "date (key d) = Some e \<Longrightarrow> dates_present (d # ds) = e # dates_present ds"
  by (simp_all add: dates_present_def List.map_filter_simps)

lemma select_date_Some:
  "select_date (Some s) ds =
     (if list_all (\<lambda>e. e = s) (dates_present ds) then Inr (Some s) else Inl MixedDates)"
proof (induction ds)
  case Nil
  then show ?case by (simp add: dates_present_simps)
next
  case (Cons d ds)
  show ?case
  proof (cases "date (key d)")
    case None
    with Cons show ?thesis by (simp add: dates_present_simps)
  next
    case (Some e)
    with Cons DateOnly_fields_eq[of s e] show ?thesis
      by (auto simp: dates_present_simps)
  qed
qed

lemma select_date_None:
  "select_date None ds =
     (case dates_present ds of
        [] \<Rightarrow> Inr None
      | e # es \<Rightarrow> if list_all (\<lambda>x. x = e) es then Inr (Some e) else Inl MixedDates)"
proof (induction ds)
  case Nil
  then show ?case by (simp add: dates_present_simps)
next
  case (Cons d ds)
  show ?case
  proof (cases "date (key d)")
    case None
    with Cons show ?thesis by (simp add: dates_present_simps)
  next
    case (Some e)
    then show ?thesis
      by (simp add: dates_present_simps select_date_Some)
  qed
qed

lemma common_day_directory_date:
  "common_day_directory ordered = Some (dir, d) \<Longrightarrow> d \<in> set (directory_dates ordered)"
  by (cases ordered)
    (auto simp: common_day_directory_def directory_dates_def List.map_filter_simps
      split: option.splits if_splits)

text \<open>
  C8, for dates with a four-digit year. \<^verbatim>\<open>determineOutputPath\<close> resolves the output
  path in the priority order of \<open>output_path_spec\<close>: the explicit output verbatim;
  otherwise the day directory that all files share, with the file \<^verbatim>\<open><YYYY-MM-DD>.txt\<close>
  of its date; otherwise the directory of the first file with the file
  \<^verbatim>\<open><YYYY-MM-DD>.txt\<close> of the one date the dated files agree on, \<^verbatim>\<open>MixedDates\<close>
  when they disagree, and \<^verbatim>\<open>UndeterminedDate\<close> when no file has a date.
\<close>

theorem C8_determineOutputPath_priority:
  assumes "list_all four_digit_date (directory_dates ordered)"
    and "list_all four_digit_date (dates_present descriptors)"
  shows "determineOutputPath ordered descriptors request
           = output_path_spec ordered descriptors request"
proof (cases "output request \<noteq> None \<and> output request \<noteq> Some []")
  case True
  then obtain c cs where "output request = Some (c # cs)"
    by (cases "output request"; cases "the (output request)") auto
  then show ?thesis
    by (simp add: determineOutputPath_def output_path_spec_def split: option.splits prod.splits)
next
  case False
  then have o: "output request = None \<or> output request = Some []" by auto
  show ?thesis
  proof (cases "common_day_directory ordered")
    case (Some common)
    obtain dir d where c: "common = (dir, d)" by (cases common)
    from Some c have "d \<in> set (directory_dates ordered)"
      by (simp add: common_day_directory_date)
    with assms(1) have "four_digit_date d" by (simp add: list_all_iff)
    then have "formatDateDashed d = date_YYYY_MM_DD d" by (rule formatDateDashed_four_digit)
    then show ?thesis
      using o Some c
      by (auto simp: determineOutputPath_def output_path_spec_def detectCommonNestedDirectory_eq
          split: option.splits prod.splits list.splits)
  next
    case None
    show ?thesis
    proof (cases "dates_present descriptors")
      case Nil
      then show ?thesis
        using o None
        by (auto simp: determineOutputPath_def output_path_spec_def
            detectCommonNestedDirectory_eq select_date_None
            split: option.splits prod.splits list.splits)
    next
      case (Cons d ds)
      with assms(2) have "four_digit_date d" by simp
      then have "formatDateDashed d = date_YYYY_MM_DD d" by (rule formatDateDashed_four_digit)
      then show ?thesis
        using o None Cons
        by (cases ordered)
          (auto simp: determineOutputPath_def output_path_spec_def
            detectCommonNestedDirectory_eq select_date_None
            split: option.splits prod.splits list.splits)
    qed
  qed
qed

text \<open>
  Examples of each case: an explicit output; a shared nested day directory; a shared
  dashed day directory that holds a flat file of another date, where the directory's date
  names the output; flat files of one date in two directories; a file without date
  before a dated one; two dates; no date.
\<close>

theorem C8_priority_examples:
  "determineOutputPath
       [''d/2025/01/27/061901-111901.txt'']
       (descriptors_of [''d/2025/01/27/061901-111901.txt''])
       \<lparr>patterns = [], output = Some ''merged.txt'', noDelete = False\<rparr>
     = Inr ''merged.txt''
   \<and> determineOutputPath
       [''d/2025/01/27/061901-111901.txt'', ''d/2025/01/27/112256-162256.txt'']
       (descriptors_of [''d/2025/01/27/061901-111901.txt'', ''d/2025/01/27/112256-162256.txt''])
       \<lparr>patterns = [], output = None, noDelete = False\<rparr>
     = Inr ''d/2025/01/27/2025-01-27.txt''
   \<and> determineOutputPath
       [''d/2024-12-25/061901-111901.txt'', ''d/2024-12-25/20250127_112256_162256.txt'']
       (descriptors_of [''d/2024-12-25/061901-111901.txt'', ''d/2024-12-25/20250127_112256_162256.txt''])
       \<lparr>patterns = [], output = None, noDelete = False\<rparr>
     = Inr ''d/2024-12-25/2024-12-25.txt''
   \<and> determineOutputPath
       [''a/20250127_061901_111901.txt'', ''b/20250127_112256_162256.txt'']
       (descriptors_of [''a/20250127_061901_111901.txt'', ''b/20250127_112256_162256.txt''])
       \<lparr>patterns = [], output = None, noDelete = False\<rparr>
     = Inr ''a/2025-01-27.txt''
   \<and> determineOutputPath
       [''inbox/061901-111901.txt'', ''d/2023/06/30/112256-162256.txt'']
       (descriptors_of [''inbox/061901-111901.txt'', ''d/2023/06/30/112256-162256.txt''])
       \<lparr>patterns = [], output = None, noDelete = False\<rparr>
     = Inr ''inbox/2023-06-30.txt''
   \<and> determineOutputPath
       [''a/20250127_061901_111901.txt'', ''a/20250128_112256_162256.txt'']
       (descriptors_of [''a/20250127_061901_111901.txt'', ''a/20250128_112256_162256.txt''])
       \<lparr>patterns = [], output = None, noDelete = False\<rparr>
     = Inl MixedDates
   \<and> determineOutputPath
       [''inbox/061901-111901.txt'', ''inbox/112256-162256.txt'']
       (descriptors_of [''inbox/061901-111901.txt'', ''inbox/112256-162256.txt''])
       \<lparr>patterns = [], output = None, noDelete = False\<rparr>
     = Inl UndeterminedDate"
proof -
  have c1: "common_day_directory [''d/2025/01/27/061901-111901.txt'']
       = Some (''d/2025/01/27'', \<lparr>year = 2025, month = 1, day = 27\<rparr>)"
    by code_simp
  have d1: "dates_present (descriptors_of [''d/2025/01/27/061901-111901.txt''])
       = [\<lparr>year = 2025, month = 1, day = 27\<rparr>]"
    by code_simp
  have a1: "list_all four_digit_date (directory_dates [''d/2025/01/27/061901-111901.txt''])"
    by code_simp
  have b1: "list_all four_digit_date (dates_present (descriptors_of [''d/2025/01/27/061901-111901.txt'']))"
    unfolding d1 by (simp add: four_digit_date_def)
  have s1: "output_path_spec
       [''d/2025/01/27/061901-111901.txt'']
       (descriptors_of [''d/2025/01/27/061901-111901.txt''])
       \<lparr>patterns = [], output = Some ''merged.txt'', noDelete = False\<rparr>
     = Inr ''merged.txt''"
    unfolding output_path_spec_def c1 d1 by simp
  have r1: "determineOutputPath
       [''d/2025/01/27/061901-111901.txt'']
       (descriptors_of [''d/2025/01/27/061901-111901.txt''])
       \<lparr>patterns = [], output = Some ''merged.txt'', noDelete = False\<rparr>
     = Inr ''merged.txt''"
    using C8_determineOutputPath_priority[OF a1 b1] s1 by simp
  have c2: "common_day_directory [''d/2025/01/27/061901-111901.txt'', ''d/2025/01/27/112256-162256.txt'']
       = Some (''d/2025/01/27'', \<lparr>year = 2025, month = 1, day = 27\<rparr>)"
    by code_simp
  have d2: "dates_present (descriptors_of [''d/2025/01/27/061901-111901.txt'', ''d/2025/01/27/112256-162256.txt''])
       = [\<lparr>year = 2025, month = 1, day = 27\<rparr>, \<lparr>year = 2025, month = 1, day = 27\<rparr>]"
    by code_simp
  have a2: "list_all four_digit_date (directory_dates [''d/2025/01/27/061901-111901.txt'', ''d/2025/01/27/112256-162256.txt''])"
    by code_simp
  have b2: "list_all four_digit_date (dates_present (descriptors_of [''d/2025/01/27/061901-111901.txt'', ''d/2025/01/27/112256-162256.txt'']))"
    unfolding d2 by (simp add: four_digit_date_def)
  have j2: "path_join ''d/2025/01/27'' (date_YYYY_MM_DD \<lparr>year = 2025, month = 1, day = 27\<rparr> @ ''.txt'')
       = ''d/2025/01/27/2025-01-27.txt''"
    by code_simp
  have s2: "output_path_spec
       [''d/2025/01/27/061901-111901.txt'', ''d/2025/01/27/112256-162256.txt'']
       (descriptors_of [''d/2025/01/27/061901-111901.txt'', ''d/2025/01/27/112256-162256.txt''])
       \<lparr>patterns = [], output = None, noDelete = False\<rparr>
     = Inr ''d/2025/01/27/2025-01-27.txt''"
    unfolding output_path_spec_def c2 d2 by (simp add: j2)
  have r2: "determineOutputPath
       [''d/2025/01/27/061901-111901.txt'', ''d/2025/01/27/112256-162256.txt'']
       (descriptors_of [''d/2025/01/27/061901-111901.txt'', ''d/2025/01/27/112256-162256.txt''])
       \<lparr>patterns = [], output = None, noDelete = False\<rparr>
     = Inr ''d/2025/01/27/2025-01-27.txt''"
    using C8_determineOutputPath_priority[OF a2 b2] s2 by simp
  have c3: "common_day_directory [''d/2024-12-25/061901-111901.txt'', ''d/2024-12-25/20250127_112256_162256.txt'']
       = Some (''d/2024-12-25'', \<lparr>year = 2024, month = 12, day = 25\<rparr>)"
    by code_simp
  have d3: "dates_present (descriptors_of [''d/2024-12-25/061901-111901.txt'', ''d/2024-12-25/20250127_112256_162256.txt''])
       = [\<lparr>year = 2024, month = 12, day = 25\<rparr>, \<lparr>year = 2025, month = 1, day = 27\<rparr>]"
    by code_simp
  have a3: "list_all four_digit_date (directory_dates [''d/2024-12-25/061901-111901.txt'', ''d/2024-12-25/20250127_112256_162256.txt''])"
    by code_simp
  have b3: "list_all four_digit_date (dates_present (descriptors_of [''d/2024-12-25/061901-111901.txt'', ''d/2024-12-25/20250127_112256_162256.txt'']))"
    unfolding d3 by (simp add: four_digit_date_def)
  have j3: "path_join ''d/2024-12-25'' (date_YYYY_MM_DD \<lparr>year = 2024, month = 12, day = 25\<rparr> @ ''.txt'')
       = ''d/2024-12-25/2024-12-25.txt''"
    by code_simp
  have s3: "output_path_spec
       [''d/2024-12-25/061901-111901.txt'', ''d/2024-12-25/20250127_112256_162256.txt'']
       (descriptors_of [''d/2024-12-25/061901-111901.txt'', ''d/2024-12-25/20250127_112256_162256.txt''])
       \<lparr>patterns = [], output = None, noDelete = False\<rparr>
     = Inr ''d/2024-12-25/2024-12-25.txt''"
    unfolding output_path_spec_def c3 d3 by (simp add: j3)
  have r3: "determineOutputPath
       [''d/2024-12-25/061901-111901.txt'', ''d/2024-12-25/20250127_112256_162256.txt'']
       (descriptors_of [''d/2024-12-25/061901-111901.txt'', ''d/2024-12-25/20250127_112256_162256.txt''])
       \<lparr>patterns = [], output = None, noDelete = False\<rparr>
     = Inr ''d/2024-12-25/2024-12-25.txt''"
    using C8_determineOutputPath_priority[OF a3 b3] s3 by simp
  have c4: "common_day_directory [''a/20250127_061901_111901.txt'', ''b/20250127_112256_162256.txt'']
       = None"
    by code_simp
  have d4: "dates_present (descriptors_of [''a/20250127_061901_111901.txt'', ''b/20250127_112256_162256.txt''])
       = [\<lparr>year = 2025, month = 1, day = 27\<rparr>, \<lparr>year = 2025, month = 1, day = 27\<rparr>]"
    by code_simp
  have a4: "list_all four_digit_date (directory_dates [''a/20250127_061901_111901.txt'', ''b/20250127_112256_162256.txt''])"
    by code_simp
  have b4: "list_all four_digit_date (dates_present (descriptors_of [''a/20250127_061901_111901.txt'', ''b/20250127_112256_162256.txt'']))"
    unfolding d4 by (simp add: four_digit_date_def)
  have j4: "path_join (dirname ''a/20250127_061901_111901.txt'') (date_YYYY_MM_DD \<lparr>year = 2025, month = 1, day = 27\<rparr> @ ''.txt'')
       = ''a/2025-01-27.txt''"
    by code_simp
  have s4: "output_path_spec
       [''a/20250127_061901_111901.txt'', ''b/20250127_112256_162256.txt'']
       (descriptors_of [''a/20250127_061901_111901.txt'', ''b/20250127_112256_162256.txt''])
       \<lparr>patterns = [], output = None, noDelete = False\<rparr>
     = Inr ''a/2025-01-27.txt''"
    unfolding output_path_spec_def c4 d4 by (simp add: j4)
  have r4: "determineOutputPath
       [''a/20250127_061901_111901.txt'', ''b/20250127_112256_162256.txt'']
       (descriptors_of [''a/20250127_061901_111901.txt'', ''b/20250127_112256_162256.txt''])
       \<lparr>patterns = [], output = None, noDelete = False\<rparr>
     = Inr ''a/2025-01-27.txt''"
    using C8_determineOutputPath_priority[OF a4 b4] s4 by simp
  have c5: "common_day_directory [''inbox/061901-111901.txt'', ''d/2023/06/30/112256-162256.txt'']
       = None"
    by code_simp
  have d5: "dates_present (descriptors_of [''inbox/061901-111901.txt'', ''d/2023/06/30/112256-162256.txt''])
       = [\<lparr>year = 2023, month = 6, day = 30\<rparr>]"
    by code_simp
  have a5: "list_all four_digit_date (directory_dates [''inbox/061901-111901.txt'', ''d/2023/06/30/112256-162256.txt''])"
    by code_simp
  have b5: "list_all four_digit_date (dates_present (descriptors_of [''inbox/061901-111901.txt'', ''d/2023/06/30/112256-162256.txt'']))"
    unfolding d5 by (simp add: four_digit_date_def)
  have j5: "path_join (dirname ''inbox/061901-111901.txt'') (date_YYYY_MM_DD \<lparr>year = 2023, month = 6, day = 30\<rparr> @ ''.txt'')
       = ''inbox/2023-06-30.txt''"
    by code_simp
  have s5: "output_path_spec
       [''inbox/061901-111901.txt'', ''d/2023/06/30/112256-162256.txt'']
       (descriptors_of [''inbox/061901-111901.txt'', ''d/2023/06/30/112256-162256.txt''])
       \<lparr>patterns = [], output = None, noDelete = False\<rparr>
     = Inr ''inbox/2023-06-30.txt''"
    unfolding output_path_spec_def c5 d5 by (simp add: j5)
  have r5: "determineOutputPath
       [''inbox/061901-111901.txt'', ''d/2023/06/30/112256-162256.txt'']
       (descriptors_of [''inbox/061901-111901.txt'', ''d/2023/06/30/112256-162256.txt''])
       \<lparr>patterns = [], output = None, noDelete = False\<rparr>
     = Inr ''inbox/2023-06-30.txt''"
    using C8_determineOutputPath_priority[OF a5 b5] s5 by simp
  have c6: "common_day_directory [''a/20250127_061901_111901.txt'', ''a/20250128_112256_162256.txt'']
       = None"
    by code_simp
  have d6: "dates_present (descriptors_of [''a/20250127_061901_111901.txt'', ''a/20250128_112256_162256.txt''])
       = [\<lparr>year = 2025, month = 1, day = 27\<rparr>, \<lparr>year = 2025, month = 1, day = 28\<rparr>]"
    by code_simp
  have a6: "list_all four_digit_date (directory_dates [''a/20250127_061901_111901.txt'', ''a/20250128_112256_162256.txt''])"
    by code_simp
  have b6: "list_all four_digit_date (dates_present (descriptors_of [''a/20250127_061901_111901.txt'', ''a/20250128_112256_162256.txt'']))"
    unfolding d6 by (simp add: four_digit_date_def)
  have s6: "output_path_spec
       [''a/20250127_061901_111901.txt'', ''a/20250128_112256_162256.txt'']
       (descriptors_of [''a/20250127_061901_111901.txt'', ''a/20250128_112256_162256.txt''])
       \<lparr>patterns = [], output = None, noDelete = False\<rparr>
     = Inl MixedDates"
    unfolding output_path_spec_def c6 d6 by simp
  have r6: "determineOutputPath
       [''a/20250127_061901_111901.txt'', ''a/20250128_112256_162256.txt'']
       (descriptors_of [''a/20250127_061901_111901.txt'', ''a/20250128_112256_162256.txt''])
       \<lparr>patterns = [], output = None, noDelete = False\<rparr>
     = Inl MixedDates"
    using C8_determineOutputPath_priority[OF a6 b6] s6 by simp
  have c7: "common_day_directory [''inbox/061901-111901.txt'', ''inbox/112256-162256.txt'']
       = None"
    by code_simp
  have d7: "dates_present (descriptors_of [''inbox/061901-111901.txt'', ''inbox/112256-162256.txt''])
       = []"
    by code_simp
  have a7: "list_all four_digit_date (directory_dates [''inbox/061901-111901.txt'', ''inbox/112256-162256.txt''])"
    by code_simp
  have b7: "list_all four_digit_date (dates_present (descriptors_of [''inbox/061901-111901.txt'', ''inbox/112256-162256.txt'']))"
    unfolding d7 by (simp add: four_digit_date_def)
  have s7: "output_path_spec
       [''inbox/061901-111901.txt'', ''inbox/112256-162256.txt'']
       (descriptors_of [''inbox/061901-111901.txt'', ''inbox/112256-162256.txt''])
       \<lparr>patterns = [], output = None, noDelete = False\<rparr>
     = Inl UndeterminedDate"
    unfolding output_path_spec_def c7 d7 by simp
  have r7: "determineOutputPath
       [''inbox/061901-111901.txt'', ''inbox/112256-162256.txt'']
       (descriptors_of [''inbox/061901-111901.txt'', ''inbox/112256-162256.txt''])
       \<lparr>patterns = [], output = None, noDelete = False\<rparr>
     = Inl UndeterminedDate"
    using C8_determineOutputPath_priority[OF a7 b7] s7 by simp
  show ?thesis
    by (intro conjI r1 r2 r3 r4 r5 r6 r7)
qed

text \<open>
  C8 does not hold of the program for a year below 1000. \<^verbatim>\<open>formatDateDashed\<close>, whose
  comment says \<^verbatim>\<open>Format a date value as YYYY-MM-DD\<close>, pads the month and the day and
  not the year: under the year directory \<^verbatim>\<open>0050\<close> the output is named
  \<^verbatim>\<open>50-01-27.txt\<close>, where \<^verbatim>\<open>YYYY-MM-DD\<close> is \<^verbatim>\<open>0050-01-27\<close>.
\<close>

theorem C8_year_not_padded_counterexample:
  "determineOutputPath [''/d/0050/01/27/061901-111901.txt'']
       (descriptors_of [''/d/0050/01/27/061901-111901.txt''])
       \<lparr>patterns = [], output = None, noDelete = False\<rparr>
     = Inr ''/d/0050/01/27/50-01-27.txt''
   \<and> date_YYYY_MM_DD \<lparr>year = 50, month = 1, day = 27\<rparr> = ''0050-01-27''
   \<and> fst (executeMerge (literal_platform [''/d/0050/01/27/061901-111901.txt'']) fs_year_50
          \<lparr>patterns = [''/d/0050/01/27/061901-111901.txt''], output = None, noDelete = True\<rparr>)
       = Inr \<lparr>files = [''/d/0050/01/27/061901-111901.txt''],
              outputPath = ''/d/0050/01/27/50-01-27.txt''\<rparr>"
  by code_simp

section \<open>The output file among the inputs\<close>







lemma merge_contents_reads:
  "merge_contents pf fs acc ps = Some merged \<Longrightarrow> p \<in> set ps \<Longrightarrow> readFileSync pf fs p \<noteq> None"
  by (induction ps arbitrary: acc) (auto simp: Let_def split: option.splits)










section \<open>Repeated paths\<close>

text \<open>
  C10 does not hold of the program. Two different files with equal sort keys (the same
  day directory and start time) keep their insertion order, so a path given before and
  after the other one is not adjacent to its repetition after the sort, and the collapse
  of consecutive duplicates keeps both occurrences: the returned list has the path twice
  and the output has its content twice. With deletion requested the second removal of
  that path fails, after the output is written and both files are deleted.
\<close>

theorem C10_repeated_path_survives:
  "getSortKey ''/d/2025/01/27/112256-162256.txt'' = getSortKey ''/d/2025/01/27/112256-172256.txt''
   \<and> fst (executeMerge
          (literal_platform [''/d/2025/01/27/112256-162256.txt'', ''/d/2025/01/27/112256-172256.txt''])
          fs_same_start
          \<lparr>patterns = [''/d/2025/01/27/112256-162256.txt'', ''/d/2025/01/27/112256-172256.txt'',
                       ''/d/2025/01/27/112256-162256.txt''],
           output = None, noDelete = True\<rparr>)
       = Inr \<lparr>files = [''/d/2025/01/27/112256-162256.txt'', ''/d/2025/01/27/112256-172256.txt'',
                       ''/d/2025/01/27/112256-162256.txt''],
              outputPath = ''/d/2025/01/27/2025-01-27.txt''\<rparr>
   \<and> snd (executeMerge
          (literal_platform [''/d/2025/01/27/112256-162256.txt'', ''/d/2025/01/27/112256-172256.txt''])
          fs_same_start
          \<lparr>patterns = [''/d/2025/01/27/112256-162256.txt'', ''/d/2025/01/27/112256-172256.txt'',
                       ''/d/2025/01/27/112256-162256.txt''],
           output = None, noDelete = True\<rparr>)
         ''/d/2025/01/27/2025-01-27.txt''
       = Some (File (''first'' @ [nl] @ ''second'' @ [nl] @ ''first'' @ [nl]))
   \<and> fst (executeMerge
          (literal_platform [''/d/2025/01/27/112256-162256.txt'', ''/d/2025/01/27/112256-172256.txt''])
          fs_same_start
          \<lparr>patterns = [''/d/2025/01/27/112256-162256.txt'', ''/d/2025/01/27/112256-172256.txt'',
                       ''/d/2025/01/27/112256-162256.txt''],
           output = None, noDelete = False\<rparr>)
       = Inl IOError"
  by code_simp

end
